theory Spec2Isabelle
  imports Complex_Main
begin

section \<open>Strings\<close>

text \<open>
  A JavaScript string is a sequence of UTF-16 code units; \<open>length\<close>, \<open>substring\<close> and
  \<open>trim\<close> count and inspect code units. The model keeps that view: a string is the list
  of its code units, each a natural number below 65536. \<open>str\<close> writes an ASCII literal.
\<close>

type_synonym jsstring = "nat list"

definition str :: "string \<Rightarrow> jsstring" where
  "str s = map of_char s"

text \<open>Truthiness of a string and of an optional string (\<open>undefined\<close> and \<open>""\<close> are falsy).\<close>

definition truthy :: "jsstring option \<Rightarrow> bool" where
  "truthy x = (case x of None \<Rightarrow> False | Some s \<Rightarrow> s \<noteq> [])"

text \<open>\<open>x || undefined\<close> on an optional string.\<close>

definition orUndefined :: "jsstring option \<Rightarrow> jsstring option" where
  "orUndefined x = (if truthy x then x else None)"

section \<open>types.ts\<close>

datatype role = User | Assistant | System

record Source =
  document :: jsstring
  chunk_index :: int
  score :: real

text \<open>
  \<open>ChatMessage\<close>: the field \<open>id\<close> is called \<open>ident\<close> here (\<open>id\<close> is the identity
  function of HOL), and the optional flag \<open>isStreaming\<close> is called \<open>streaming\<close> (the widget
  has a field of its own with that name); an absent flag is \<open>False\<close>, since the code
  only tests its truthiness. \<open>timestamp\<close> is the clock reading in milliseconds.
\<close>

record ChatMessage =
  ident :: jsstring
  role :: role
  content :: jsstring
  sources :: "Source list option"
  intent :: "jsstring option"
  timestamp :: nat
  streaming :: bool

text \<open>Outbound messages \<open>WSMessage\<close>: the code builds a \<open>message\<close> and a \<open>ping\<close>.\<close>

datatype WSMessage =
    Message jsstring "jsstring option"
  | Ping
  | Typing

datatype sysevent = escalated | agent_joined | agent_left

text \<open>Inbound messages \<open>WSIncoming\<close>, one constructor per \<open>type\<close> tag.\<close>

datatype WSIncoming =
    stream_start jsstring
  | stream_chunk jsstring jsstring
  | stream_end jsstring "jsstring option" "Source list" jsstring
  | error jsstring
  | system jsstring "sysevent option"

text \<open>
  \<open>stream_chunk content message_id\<close> and \<open>stream_end message_id conversation_id sources intent\<close>
  keep the field order of the interfaces.
\<close>

section \<open>WebSocketClient.ts\<close>

subsection \<open>The browser side: sockets and timers\<close>

text \<open>
  The client talks to three browser facilities, which the model keeps as explicit state
  next to the fields of the class:
  \<^item> every \<open>new WebSocket(url)\<close> appends a socket in state \<open>CONNECTING\<close> to \<open>sockets\<close>
    (and its address to \<open>urls\<close>); a socket is named by its index;
  \<^item> \<open>setTimeout\<close> and \<open>setInterval\<close> return a fresh positive handle and add an entry to
    \<open>timeouts\<close> (with the delay) or \<open>intervals\<close>; \<open>clearTimeout\<close> and \<open>clearInterval\<close>
    remove the entries with that handle;
  \<^item> \<open>wire\<close> logs what \<open>WebSocket.send\<close> transmitted and on which socket, \<open>calls\<close> logs the
    callbacks (\<open>onOpen\<close>, \<open>onClose\<close>, \<open>onMessage\<close>) handed to the owner of the client.
\<close>

datatype readyState = CONNECTING | OPEN | CLOSING | CLOSED

datatype callback = OnOpen | OnClose | OnMessage WSIncoming

record WebSocketClient =
  ws :: "nat option"
  url :: jsstring
  sessionId :: jsstring
  sourceGroupId :: "jsstring option"
  reconnectAttempts :: nat
  maxReconnectAttempts :: nat
  reconnectTimeout :: "nat option"
  pingInterval :: "nat option"
  sockets :: "readyState list"
  urls :: "jsstring list"
  timeouts :: "(nat \<times> nat) list"
  intervals :: "nat list"
  nextTimer :: nat
  wire :: "(nat \<times> WSMessage) list"
  calls :: "callback list"

text \<open>The constructor: field initialisers of the class, no socket, no timer.\<close>

definition new_client :: "jsstring \<Rightarrow> jsstring \<Rightarrow> jsstring option \<Rightarrow> WebSocketClient" where
  "new_client u sid sg =
     \<lparr> ws = None, url = u, sessionId = sid, sourceGroupId = sg,
       reconnectAttempts = 0, maxReconnectAttempts = 5,
       reconnectTimeout = None, pingInterval = None,
       sockets = [], urls = [], timeouts = [], intervals = [], nextTimer = 1,
       wire = [], calls = [] \<rparr>"

definition readyStateOf :: "WebSocketClient \<Rightarrow> nat \<Rightarrow> readyState" where
  "readyStateOf c k = (if k < length (sockets c) then sockets c ! k else CLOSED)"

definition setReadyState :: "WebSocketClient \<Rightarrow> nat \<Rightarrow> readyState \<Rightarrow> WebSocketClient" where
  "setReadyState c k r = c\<lparr>sockets := (sockets c)[k := r]\<rparr>"

definition clearTimeout :: "nat \<Rightarrow> WebSocketClient \<Rightarrow> WebSocketClient" where
  "clearTimeout h c = c\<lparr>timeouts := filter (\<lambda>t. fst t \<noteq> h) (timeouts c)\<rparr>"

definition clearInterval :: "nat \<Rightarrow> WebSocketClient \<Rightarrow> WebSocketClient" where
  "clearInterval h c = c\<lparr>intervals := filter (\<lambda>i. i \<noteq> h) (intervals c)\<rparr>"

text \<open>\<open>WebSocket.close()\<close>: a socket that is connecting or open starts closing.\<close>

definition socket_close :: "nat \<Rightarrow> WebSocketClient \<Rightarrow> WebSocketClient" where
  "socket_close k c =
     (if readyStateOf c k = CONNECTING \<or> readyStateOf c k = OPEN
      then setReadyState c k CLOSING else c)"

subsection \<open>The methods of the class\<close>

text \<open>\<open>this.url.replace(/^http/, "ws")\<close> and the address of the live channel.\<close>

definition wsUrl :: "jsstring \<Rightarrow> jsstring" where
  "wsUrl u = (if take 4 u = str ''http'' then str ''ws'' @ drop 4 u else u)"

definition sgParam :: "jsstring option \<Rightarrow> jsstring" where
  "sgParam sg = (if truthy sg then str ''?sg='' @ the sg else [])"

definition connect :: "WebSocketClient \<Rightarrow> WebSocketClient" where
  "connect c =
     c\<lparr> ws := Some (length (sockets c)),
        sockets := sockets c @ [CONNECTING],
        urls := urls c @ [wsUrl (url c) @ str ''/ws/widget/'' @ sessionId c
                            @ sgParam (sourceGroupId c)] \<rparr>"

definition send :: "WSMessage \<Rightarrow> WebSocketClient \<Rightarrow> WebSocketClient" where
  "send m c =
     (case ws c of
        None \<Rightarrow> c
      | Some k \<Rightarrow> if readyStateOf c k = OPEN then c\<lparr>wire := wire c @ [(k, m)]\<rparr> else c)"

definition isConnected :: "WebSocketClient \<Rightarrow> bool" where
  "isConnected c = (case ws c of None \<Rightarrow> False | Some k \<Rightarrow> readyStateOf c k = OPEN)"

definition startPing :: "WebSocketClient \<Rightarrow> WebSocketClient" where
  "startPing c =
     c\<lparr> pingInterval := Some (nextTimer c),
        intervals := intervals c @ [nextTimer c],
        nextTimer := nextTimer c + 1 \<rparr>"

definition stopPing :: "WebSocketClient \<Rightarrow> WebSocketClient" where
  "stopPing c =
     (case pingInterval c of
        None \<Rightarrow> c
      | Some h \<Rightarrow> (clearInterval h c)\<lparr>pingInterval := None\<rparr>)"

definition tryReconnect :: "WebSocketClient \<Rightarrow> WebSocketClient" where
  "tryReconnect c =
     (if reconnectAttempts c \<ge> maxReconnectAttempts c then c
      else
        let delay = min (1000 * 2 ^ reconnectAttempts c) 30000
        in c\<lparr> reconnectAttempts := reconnectAttempts c + 1,
              reconnectTimeout := Some (nextTimer c),
              timeouts := timeouts c @ [(nextTimer c, delay)],
              nextTimer := nextTimer c + 1 \<rparr>)"

definition disconnect :: "WebSocketClient \<Rightarrow> WebSocketClient" where
  "disconnect c =
     (let c1 = c\<lparr>maxReconnectAttempts := 0\<rparr>;
          c2 = stopPing c1;
          c3 = (case reconnectTimeout c2 of None \<Rightarrow> c2 | Some h \<Rightarrow> clearTimeout h c2);
          c4 = (case ws c3 of None \<Rightarrow> c3 | Some k \<Rightarrow> socket_close k c3)
      in c4\<lparr>ws := None\<rparr>)"

subsection \<open>The handlers installed by \<open>connect\<close>\<close>

text \<open>
  The four handlers are closures over the client, not over the socket they are attached
  to: they read and write the fields of \<open>this\<close> whichever socket fires them.
  An inbound frame either fails to parse or parses to a \<open>WSIncoming\<close>.
\<close>

datatype frame = Malformed | Parsed WSIncoming

definition ws_onopen :: "WebSocketClient \<Rightarrow> WebSocketClient" where
  "ws_onopen c =
     (let c1 = startPing (c\<lparr>reconnectAttempts := 0\<rparr>)
      in c1\<lparr>calls := calls c1 @ [OnOpen]\<rparr>)"

definition ws_onmessage :: "frame \<Rightarrow> WebSocketClient \<Rightarrow> WebSocketClient" where
  "ws_onmessage f c =
     (case f of
        Malformed \<Rightarrow> c
      | Parsed d \<Rightarrow> c\<lparr>calls := calls c @ [OnMessage d]\<rparr>)"

definition ws_onclose :: "WebSocketClient \<Rightarrow> WebSocketClient" where
  "ws_onclose c =
     (let c1 = stopPing c;
          c2 = c1\<lparr>calls := calls c1 @ [OnClose]\<rparr>
      in tryReconnect c2)"

definition ws_onerror :: "WebSocketClient \<Rightarrow> WebSocketClient" where
  "ws_onerror c = c"

subsection \<open>Transport and timer events\<close>

text \<open>
  What the browser may do to the client between two calls: open a connecting socket,
  deliver a frame on an open socket, close a socket that is not closed yet (each socket
  closes once), report an error, run a pending timeout (which is then spent) or run a
  tick of a live interval. An event the browser cannot produce in the current state
  leaves the state as it is.
\<close>

datatype event =
    Opened nat
  | Received nat frame
  | Closed nat
  | Errored nat
  | TimeoutFired nat
  | IntervalFired nat

definition fire :: "WebSocketClient \<Rightarrow> event \<Rightarrow> WebSocketClient" where
  "fire c e =
     (case e of
        Opened k \<Rightarrow>
          if readyStateOf c k = CONNECTING then ws_onopen (setReadyState c k OPEN) else c
      | Received k f \<Rightarrow>
          if readyStateOf c k = OPEN then ws_onmessage f c else c
      | Closed k \<Rightarrow>
          if readyStateOf c k \<noteq> CLOSED then ws_onclose (setReadyState c k CLOSED) else c
      | Errored k \<Rightarrow> ws_onerror c
      | TimeoutFired h \<Rightarrow>
          if h \<in> fst ` set (timeouts c) then connect (clearTimeout h c) else c
      | IntervalFired h \<Rightarrow>
          if h \<in> set (intervals c) then send Ping c else c)"

text \<open>
  What can happen to a client during its life: a transport or timer event, a \<open>send\<close> by
  its owner, or \<open>disconnect\<close>. The widget creates a client, calls \<open>connect\<close> once
  (\<open>connectWS\<close>) and from then on only sends and, in \<open>destroy\<close>, disconnects; every later
  \<open>connect\<close> comes from the reconnect timeout.
\<close>

datatype action = Event event | Send WSMessage | Disconnect

definition act :: "WebSocketClient \<Rightarrow> action \<Rightarrow> WebSocketClient" where
  "act c a =
     (case a of
        Event e \<Rightarrow> fire c e
      | Send m \<Rightarrow> send m c
      | Disconnect \<Rightarrow> disconnect c)"

definition lifecycle :: "jsstring \<Rightarrow> jsstring \<Rightarrow> jsstring option \<Rightarrow> action list \<Rightarrow> WebSocketClient" where
  "lifecycle u sid sg as = foldl act (connect (new_client u sid sg)) as"

subsection \<open>Invariants of the life of a client\<close>

text \<open>
  \<open>inv\<close> holds from the first \<open>connect\<close> until \<open>disconnect\<close>: at most one socket is not
  closed, a connecting or open socket is the current one, a reconnect timeout is pending
  only while every socket is closed, and every live timer is the one the client holds the
  handle of. \<open>down\<close> holds from \<open>disconnect\<close> on.
\<close>

definition inv :: "WebSocketClient \<Rightarrow> bool" where
  "inv c \<longleftrightarrow>
     (\<forall>i<length (sockets c). \<forall>j<length (sockets c).
        sockets c ! i \<noteq> CLOSED \<longrightarrow> sockets c ! j \<noteq> CLOSED \<longrightarrow> i = j) \<and>
     (\<forall>k<length (sockets c). sockets c ! k = CONNECTING \<or> sockets c ! k = OPEN \<longrightarrow> ws c = Some k) \<and>
     (timeouts c \<noteq> [] \<longrightarrow> (\<forall>k<length (sockets c). sockets c ! k = CLOSED)) \<and>
     (\<forall>t\<in>set (timeouts c). reconnectTimeout c = Some (fst t)) \<and>
     (\<forall>h\<in>set (intervals c). pingInterval c = Some h) \<and>
     (intervals c \<noteq> [] \<longrightarrow>
        (\<exists>k<length (sockets c). sockets c ! k \<noteq> CLOSED) \<and>
        (\<forall>k<length (sockets c). sockets c ! k \<noteq> CONNECTING))"

definition down :: "WebSocketClient \<Rightarrow> bool" where
  "down c \<longleftrightarrow>
     ws c = None \<and> maxReconnectAttempts c = 0 \<and> timeouts c = [] \<and> intervals c = [] \<and>
     pingInterval c = None \<and>
     (\<forall>k<length (sockets c). sockets c ! k = CLOSING \<or> sockets c ! k = CLOSED)"


text \<open>Two states used as examples: an open client, and one whose connection failed four times.\<close>

definition demo_open :: WebSocketClient where
  "demo_open = lifecycle (str ''https://api.example'') (str ''v1'') None [Event (Opened 0)]"

definition demo_dropped :: WebSocketClient where
  "demo_dropped = lifecycle (str ''https://api.example'') (str ''v1'') None
     [Event (Closed 0), Event (TimeoutFired 1), Event (Closed 1), Event (TimeoutFired 2),
      Event (Closed 2), Event (TimeoutFired 3), Event (Closed 3), Event (TimeoutFired 4)]"


section \<open>ChatWidget.ts\<close>

subsection \<open>Strings of the widget\<close>

text \<open>\<open>Date.now().toString()\<close>: the decimal digits of the clock reading.\<close>

fun toString :: "nat \<Rightarrow> jsstring" where
  "toString n = (if n < 10 then [48 + n] else toString (n div 10) @ [48 + n mod 10])"

declare toString.simps [simp del]

text \<open>
  \<open>String.prototype.trim\<close> removes the code units of ECMAScript's \<open>WhiteSpace\<close> and
  \<open>LineTerminator\<close> productions from both ends.
\<close>

definition isWhiteSpace :: "nat \<Rightarrow> bool" where
  "isWhiteSpace u \<longleftrightarrow>
     u \<in> {9, 10, 11, 12, 13, 32, 160, 5760, 8232, 8233, 8239, 8287, 12288, 65279}
     \<or> (8192 \<le> u \<and> u \<le> 8202)"

definition trim :: "jsstring \<Rightarrow> jsstring" where
  "trim s = rev (dropWhile isWhiteSpace (rev (dropWhile isWhiteSpace s)))"

definition apology :: jsstring where
  "apology = str ''Ba'' @ [287] @ str ''lant'' @ [305] @ str '' hatas'' @ [305] @ str '' olu''
     @ [351] @ str ''tu. L'' @ [252] @ str ''tfen tekrar deneyin.''"

definition defaultWelcome :: jsstring where
  "defaultWelcome = str ''Merhaba! Size nas'' @ [305] @ str ''l yard'' @ [305] @ str ''mc''
     @ [305] @ str '' olabilirim?''"

definition textOnline :: jsstring where
  "textOnline = [199] @ str ''evrimi'' @ [231] @ str ''i''"

definition textConnecting :: jsstring where
  "textConnecting = str ''Ba'' @ [287] @ str ''lan'' @ [305] @ str ''yor...''"

subsection \<open>State\<close>

text \<open>
  Of the page the model keeps what the protocol reads or writes: the value and the
  \<open>disabled\<close> flags of the input controls, whether the typing row \<open>idf-typing\<close> is
  present, the status text, and \<open>view\<close>, the log of what was done to message bubbles:
  \<^item> \<open>Bubble id role content streaming\<close>: \<open>addMessage\<close> appended the element \<open>msg-id\<close>;
  \<^item> \<open>SetText id text\<close>: \<open>textContent\<close> of the element found under \<open>msg-id\<close> was set;
  \<^item> \<open>SetHtml id text\<close>: the class \<open>streaming\<close> was removed from that element and its
    \<open>innerHTML\<close> set to the rendering of \<open>text\<close>.
  Elements under an id \<open>msg-...\<close> are created by \<open>addMessage\<close> only, one for every
  message whatever its role, and never removed; so \<open>getElementById\<close> finds one exactly
  when \<open>messages\<close> holds a message with that id.
\<close>

datatype dom =
    Bubble jsstring role jsstring bool
  | SetText jsstring jsstring
  | SetHtml jsstring jsstring

text \<open>The one-shot request of \<open>sendViaRest\<close>, and what may come back.\<close>

record RestRequest =
  req_content :: jsstring
  req_conversation_id :: "jsstring option"
  req_visitor :: jsstring

record RestData =
  conversation_id :: "jsstring option"
  message_id :: "jsstring option"
  data_content :: "jsstring option"
  data_sources :: "Source list option"
  data_intent :: "jsstring option"

text \<open>
  \<open>fetch\<close> rejects on a network error and resolves on every HTTP response, whatever its
  status. \<open>NotJson\<close> is a body on which \<open>response.json()\<close> or the first property access
  throws (unparsable text, or \<open>null\<close>); any other body is an object some of whose fields
  may be absent.
\<close>

datatype body = NotJson | Json RestData

datatype reply = NetworkError | Response nat body

text \<open>
  A call of the asynchronous \<open>sendViaRest\<close> is suspended at one of two points:
  \<open>Fetching\<close>, awaiting the response, or \<open>Revealing msgId fullText i sources intent\<close>,
  awaiting the promise that the reveal interval resolves (the arguments are the locals
  the rest of the call reads). \<open>Faulted\<close> is the second suspension when \<open>data.content\<close>
  was absent: the interval callback throws a \<open>TypeError\<close> at \<open>fullText.length\<close> on each
  tick, outside the \<open>try\<close>, so the promise is never resolved.
\<close>

datatype restcall =
    Fetching
  | Revealing jsstring jsstring nat "Source list option" "jsstring option"
  | Faulted
  | Settled

text \<open>
  The field \<open>ws\<close> of the widget is called \<open>ws_client\<close> (the client has a field \<open>ws\<close>), and
  the configuration is kept as the three entries the protocol reads. \<open>uncaught\<close> counts
  the exceptions that reached the top of a timer callback.
\<close>

record ChatWidget =
  apiUrl :: jsstring
  cfgSourceGroupId :: "jsstring option"
  welcomeMessage :: jsstring
  messages :: "ChatMessage list"
  ws_client :: "WebSocketClient option"
  visitorId :: jsstring
  conversationId :: "jsstring option"
  isStreaming :: bool
  currentStreamId :: jsstring
  currentStreamContent :: jsstring
  textarea_value :: jsstring
  textarea_disabled :: bool
  sendBtn_disabled :: bool
  typing :: bool
  statusText :: jsstring
  view :: "dom list"
  requests :: "RestRequest list"
  rest :: "restcall list"
  uncaught :: nat

definition new_widget :: "jsstring \<Rightarrow> jsstring option \<Rightarrow> jsstring option \<Rightarrow> ChatWidget" where
  "new_widget api sg wm =
     \<lparr> apiUrl = api, cfgSourceGroupId = sg,
       welcomeMessage = (case wm of None \<Rightarrow> defaultWelcome | Some m \<Rightarrow> m),
       messages = [], ws_client = None, visitorId = [], conversationId = Some [],
       isStreaming = False, currentStreamId = [], currentStreamContent = [],
       textarea_value = [], textarea_disabled = False, sendBtn_disabled = False,
       typing = False, statusText = textOnline, view = [],
       requests = [], rest = [], uncaught = 0 \<rparr>"

subsection \<open>Helpers of the class\<close>

definition addMessage :: "ChatMessage \<Rightarrow> ChatWidget \<Rightarrow> ChatWidget" where
  "addMessage msg w =
     w\<lparr> messages := messages w @ [msg],
        view := view w @ [Bubble (ident msg) (role msg) (content msg) (streaming msg)] \<rparr>"

definition hasElement :: "ChatWidget \<Rightarrow> jsstring \<Rightarrow> bool" where
  "hasElement w i \<longleftrightarrow> i \<in> set (map ident (messages w))"

definition updateStreamingMessage :: "jsstring \<Rightarrow> jsstring \<Rightarrow> ChatWidget \<Rightarrow> ChatWidget" where
  "updateStreamingMessage messageId text w =
     (if hasElement w messageId then w\<lparr>view := view w @ [SetText messageId text]\<rparr> else w)"

text \<open>
  \<open>messages.find(p)\<close> followed by assignments to the fields of the object found: the
  first message satisfying \<open>p\<close> is changed in place, the others are not touched.
\<close>

fun update_first :: "('a \<Rightarrow> bool) \<Rightarrow> ('a \<Rightarrow> 'a) \<Rightarrow> 'a list \<Rightarrow> 'a list" where
  "update_first p f [] = []"
| "update_first p f (x # xs) = (if p x then f x # xs else x # update_first p f xs)"

definition finalizeMessage ::
  "jsstring \<Rightarrow> Source list \<Rightarrow> jsstring \<Rightarrow> ChatWidget \<Rightarrow> ChatWidget" where
  "finalizeMessage messageId srcs tag w =
     (let w1 = w\<lparr> messages :=
                   update_first (\<lambda>m. ident m = messageId)
                     (\<lambda>m. m\<lparr> content := currentStreamContent w, sources := Some srcs,
                              intent := Some tag, streaming := False \<rparr>)
                     (messages w) \<rparr>
      in if hasElement w1 messageId
         then w1\<lparr>view := view w1 @ [SetHtml messageId (currentStreamContent w1)]\<rparr>
         else w1)"

definition showTypingIndicator :: "ChatWidget \<Rightarrow> ChatWidget" where
  "showTypingIndicator w = w\<lparr>typing := True\<rparr>"

definition removeTypingIndicator :: "ChatWidget \<Rightarrow> ChatWidget" where
  "removeTypingIndicator w = w\<lparr>typing := False\<rparr>"

subsection \<open>\<open>handleWSMessage\<close>\<close>

text \<open>\<open>now\<close> is the clock reading that \<open>Date.now()\<close> and \<open>new Date()\<close> return in the call.\<close>

definition handleWSMessage :: "ChatWidget \<Rightarrow> WSIncoming \<Rightarrow> nat \<Rightarrow> ChatWidget" where
  "handleWSMessage w d now =
     (case d of
        stream_start mid \<Rightarrow>
          addMessage
            \<lparr> ident = mid, role = Assistant, content = [], sources = None, intent = None,
              timestamp = now, streaming = True \<rparr>
            (removeTypingIndicator
               (w\<lparr>isStreaming := True, currentStreamId := mid, currentStreamContent := []\<rparr>))
      | stream_chunk c mid \<Rightarrow>
          updateStreamingMessage mid (currentStreamContent w @ c)
            (w\<lparr>currentStreamContent := currentStreamContent w @ c\<rparr>)
      | stream_end mid conv srcs tag \<Rightarrow>
          (let w1 = w\<lparr>isStreaming := False\<rparr>;
               w2 = (if truthy conv then w1\<lparr>conversationId := conv\<rparr> else w1);
               w3 = finalizeMessage mid srcs tag w2
           in w3\<lparr>sendBtn_disabled := False, textarea_disabled := False\<rparr>)
      | error msg \<Rightarrow>
          (let w1 = (removeTypingIndicator w)\<lparr>isStreaming := False\<rparr>;
               w2 = addMessage
                      \<lparr> ident = toString now, role = Assistant, content = msg, sources = None,
                        intent = None, timestamp = now, streaming = False \<rparr> w1
           in w2\<lparr>sendBtn_disabled := False, textarea_disabled := False\<rparr>)
      | system c ev \<Rightarrow>
          addMessage
            \<lparr> ident = toString now, role = System, content = c, sources = None, intent = None,
              timestamp = now, streaming = False \<rparr>
            (removeTypingIndicator w))"

subsection \<open>\<open>sendMessage\<close> and \<open>sendViaRest\<close>\<close>

text \<open>
  \<open>sendViaRest\<close> up to its first \<open>await\<close>: the request is issued with the conversation
  identifier of that moment, and the call is suspended.
\<close>

definition sendViaRest :: "jsstring \<Rightarrow> ChatWidget \<Rightarrow> ChatWidget" where
  "sendViaRest text w =
     w\<lparr> requests := requests w @
          [\<lparr> req_content = text, req_conversation_id = orUndefined (conversationId w),
             req_visitor = visitorId w \<rparr>],
        rest := rest w @ [Fetching] \<rparr>"

definition wsConnected :: "ChatWidget \<Rightarrow> bool" where
  "wsConnected w = (case ws_client w of None \<Rightarrow> False | Some c \<Rightarrow> isConnected c)"

definition sendMessage :: "ChatWidget \<Rightarrow> nat \<Rightarrow> ChatWidget" where
  "sendMessage w now =
     (let text = trim (textarea_value w) in
      if text = [] \<or> isStreaming w then w
      else
        let w1 = addMessage
                   \<lparr> ident = toString now, role = User, content = text, sources = None,
                     intent = None, timestamp = now, streaming = False \<rparr> w;
            w2 = showTypingIndicator w1;
            w3 = w2\<lparr>sendBtn_disabled := True, textarea_disabled := True\<rparr>;
            w4 = (if wsConnected w3
                  then w3\<lparr>ws_client :=
                          map_option (send (Message text (orUndefined (conversationId w3))))
                            (ws_client w3)\<rparr>
                  else sendViaRest text w3)
        in w4\<lparr>textarea_value := []\<rparr>)"

text \<open>The rest of \<open>sendViaRest\<close>: the \<open>catch\<close> and \<open>finally\<close> blocks.\<close>

definition rest_finally :: "nat \<Rightarrow> ChatWidget \<Rightarrow> ChatWidget" where
  "rest_finally k w =
     w\<lparr> sendBtn_disabled := False, textarea_disabled := False,
        rest := (rest w)[k := Settled] \<rparr>"

definition rest_catch :: "nat \<Rightarrow> nat \<Rightarrow> ChatWidget \<Rightarrow> ChatWidget" where
  "rest_catch k now w =
     rest_finally k
       (addMessage
          \<lparr> ident = toString now, role = Assistant, content = apology, sources = None,
            intent = None, timestamp = now, streaming = False \<rparr>
          (removeTypingIndicator w))"

text \<open>
  From the response to the second suspension. The element \<open>el\<close> is looked up right after
  \<open>addMessage\<close> created one under that id, so the \<open>if (el)\<close> always takes its branch.
\<close>

definition rest_reply :: "nat \<Rightarrow> reply \<Rightarrow> nat \<Rightarrow> ChatWidget \<Rightarrow> ChatWidget" where
  "rest_reply k rp now w =
     (if k < length (rest w) \<and> rest w ! k = Fetching then
        (case rp of
           NetworkError \<Rightarrow> rest_catch k now w
         | Response st NotJson \<Rightarrow> rest_catch k now w
         | Response st (Json data) \<Rightarrow>
             (let w1 = (removeTypingIndicator w)\<lparr>conversationId := conversation_id data\<rparr>;
                  msgId = (if truthy (message_id data) then the (message_id data)
                           else toString now);
                  w2 = addMessage
                         \<lparr> ident = msgId, role = Assistant, content = [], sources = None,
                           intent = None, timestamp = now, streaming = True \<rparr> w1
              in case data_content data of
                   None \<Rightarrow> w2\<lparr>rest := (rest w2)[k := Faulted]\<rparr>
                 | Some fullText \<Rightarrow>
                     w2\<lparr>rest := (rest w2)[k := Revealing msgId fullText 0
                                                 (data_sources data) (data_intent data)]\<rparr>))
      else w)"

text \<open>
  One tick of the reveal interval; \<open>r\<close> is what \<open>Math.random()\<close> returns. The tick that
  reaches the end of the text resolves the promise, and the rest of the call (the stored
  message is updated, then \<open>finally\<close>) runs before any other event.
\<close>

definition chunkSize :: "real \<Rightarrow> nat" where
  "chunkSize r = nat \<lfloor>r * 6\<rfloor> + 3"

definition rest_tick :: "nat \<Rightarrow> real \<Rightarrow> ChatWidget \<Rightarrow> ChatWidget" where
  "rest_tick k r w =
     (if k < length (rest w) then
        (case rest w ! k of
           Revealing msgId fullText i srcs tag \<Rightarrow>
             (let i' = i + chunkSize r in
              if i' \<ge> length fullText then
                rest_finally k
                  (w\<lparr> view := view w @ [SetHtml msgId fullText],
                      messages :=
                        update_first (\<lambda>m. ident m = msgId)
                          (\<lambda>m. m\<lparr> content := fullText, sources := srcs, intent := tag,
                                   streaming := False \<rparr>)
                          (messages w) \<rparr>)
              else
                w\<lparr> view := view w @ [SetText msgId (take i' fullText)],
                    rest := (rest w)[k := Revealing msgId fullText i' srcs tag] \<rparr>)
         | Faulted \<Rightarrow> w\<lparr>uncaught := uncaught w + 1\<rparr>
         | _ \<Rightarrow> w)
      else w)"

subsection \<open>Session start, transport callbacks and shutdown\<close>

definition connectWS :: "ChatWidget \<Rightarrow> ChatWidget" where
  "connectWS w =
     w\<lparr>ws_client := Some (connect (new_client (apiUrl w) (visitorId w) (cfgSourceGroupId w)))\<rparr>"

text \<open>\<open>initSession\<close> after a successful response (a failed one is only logged).\<close>

definition initSession_ok :: "jsstring \<Rightarrow> jsstring option \<Rightarrow> nat \<Rightarrow> ChatWidget \<Rightarrow> ChatWidget" where
  "initSession_ok vid wm now w =
     (let w1 = w\<lparr>visitorId := vid\<rparr>;
          w2 = (if truthy wm then w1\<lparr>welcomeMessage := the wm\<rparr> else w1);
          w3 = addMessage
                 \<lparr> ident = str ''welcome'', role = Assistant, content = welcomeMessage w2,
                   sources = None, intent = None, timestamp = now, streaming = False \<rparr> w2
      in connectWS w3)"

definition deliver :: "nat \<Rightarrow> ChatWidget \<Rightarrow> callback \<Rightarrow> ChatWidget" where
  "deliver now w cb =
     (case cb of
        OnOpen \<Rightarrow> w\<lparr>statusText := textOnline\<rparr>
      | OnClose \<Rightarrow> w\<lparr>statusText := textConnecting\<rparr>
      | OnMessage d \<Rightarrow> handleWSMessage w d now)"

definition transport :: "event \<Rightarrow> nat \<Rightarrow> ChatWidget \<Rightarrow> ChatWidget" where
  "transport e now w =
     (case ws_client w of
        None \<Rightarrow> w
      | Some c \<Rightarrow>
          (let c' = fire c e
           in foldl (deliver now) (w\<lparr>ws_client := Some c'\<rparr>)
                (drop (length (calls c)) (calls c'))))"

definition destroy :: "ChatWidget \<Rightarrow> ChatWidget" where
  "destroy w = w\<lparr>ws_client := map_option disconnect (ws_client w)\<rparr>"

subsection \<open>Events of the widget\<close>

text \<open>
  \<open>sendMessage\<close> is private; it runs on a click on the send button or on Enter in the
  textarea, and the browser delivers neither to a disabled control. A disabled textarea
  cannot be edited either.
\<close>

definition typeText :: "jsstring \<Rightarrow> ChatWidget \<Rightarrow> ChatWidget" where
  "typeText t w = (if textarea_disabled w then w else w\<lparr>textarea_value := t\<rparr>)"

definition clickSend :: "nat \<Rightarrow> ChatWidget \<Rightarrow> ChatWidget" where
  "clickSend now w = (if sendBtn_disabled w then w else sendMessage w now)"

definition pressEnter :: "nat \<Rightarrow> ChatWidget \<Rightarrow> ChatWidget" where
  "pressEnter now w = (if textarea_disabled w then w else sendMessage w now)"

datatype wevent =
    SessionReady jsstring "jsstring option" nat
  | TypeText jsstring
  | ClickSend nat
  | PressEnter nat
  | Transport event nat
  | RestReply nat reply nat
  | RestTick nat real
  | Destroy

definition wstep :: "ChatWidget \<Rightarrow> wevent \<Rightarrow> ChatWidget" where
  "wstep w e =
     (case e of
        SessionReady vid wm now \<Rightarrow> initSession_ok vid wm now w
      | TypeText t \<Rightarrow> typeText t w
      | ClickSend now \<Rightarrow> clickSend now w
      | PressEnter now \<Rightarrow> pressEnter now w
      | Transport ev now \<Rightarrow> transport ev now w
      | RestReply k rp now \<Rightarrow> rest_reply k rp now w
      | RestTick k r \<Rightarrow> rest_tick k r w
      | Destroy \<Rightarrow> destroy w)"

definition wrun :: "ChatWidget \<Rightarrow> wevent list \<Rightarrow> ChatWidget" where
  "wrun w es = foldl wstep w es"

text \<open>A sequence of inbound messages, each with the clock reading at its arrival.\<close>

definition feed :: "ChatWidget \<Rightarrow> (WSIncoming \<times> nat) list \<Rightarrow> ChatWidget" where
  "feed w ds = foldl (\<lambda>w' d. handleWSMessage w' (fst d) (snd d)) w ds"


subsection \<open>Notions used to state the properties\<close>

text \<open>
  The texts shown while chunks \<open>cs\<close> arrive on top of an accumulated text \<open>a\<close>, the
  chunk signals of one message with their arrival times, the placeholder that
  \<open>stream_start\<close> appends, and a whole live exchange: start, chunks, end.
\<close>

fun accumulate :: "jsstring \<Rightarrow> jsstring list \<Rightarrow> jsstring list" where
  "accumulate a [] = []"
| "accumulate a (c # cs) = (a @ c) # accumulate (a @ c) cs"

definition chunk_signals :: "jsstring \<Rightarrow> (jsstring \<times> nat) list \<Rightarrow> (WSIncoming \<times> nat) list" where
  "chunk_signals mid cts = map (\<lambda>ct. (stream_chunk (fst ct) mid, snd ct)) cts"

definition placeholder :: "jsstring \<Rightarrow> nat \<Rightarrow> ChatMessage" where
  "placeholder mid t =
     \<lparr> ident = mid, role = Assistant, content = [], sources = None, intent = None,
       timestamp = t, streaming = True \<rparr>"

definition live_path ::
  "ChatWidget \<Rightarrow> jsstring \<Rightarrow> nat \<Rightarrow> (jsstring \<times> nat) list \<Rightarrow> jsstring option \<Rightarrow>
     Source list \<Rightarrow> jsstring \<Rightarrow> nat \<Rightarrow> ChatWidget" where
  "live_path w mid t0 cts conv srcs tag t1 =
     feed w ([(stream_start mid, t0)] @ chunk_signals mid cts @ [(stream_end mid conv srcs tag, t1)])"

text \<open>
  States used as examples: a widget whose session is set up and whose socket is open;
  the same with the socket still connecting; one that received a \<open>stream_start\<close>; and
  one that submitted over the fallback path and is revealing the response.
\<close>

definition demo_widget :: ChatWidget where
  "demo_widget = wrun (new_widget (str ''https://api.example'') None None)
     [SessionReady (str ''v1'') None 1000, Transport (Opened 0) 1001]"

definition demo_connecting :: ChatWidget where
  "demo_connecting = wrun (new_widget (str ''https://api.example'') None None)
     [SessionReady (str ''v1'') None 1000]"

definition demo_streaming :: ChatWidget where
  "demo_streaming = feed demo_widget [(stream_start (str ''m1''), 2000)]"

definition demo_data :: RestData where
  "demo_data = \<lparr> conversation_id = Some (str ''c1''), message_id = Some (str ''m1''),
     data_content = Some (str ''Hello world''), data_sources = None, data_intent = None \<rparr>"

definition demo_reply :: reply where
  "demo_reply = Response 200 (Json demo_data)"

definition demo_fetching :: ChatWidget where
  "demo_fetching = wrun demo_connecting [TypeText (str ''a''), ClickSend 1100]"

definition demo_revealing :: ChatWidget where
  "demo_revealing = wrun demo_connecting
     [TypeText (str ''a''), ClickSend 1100, RestReply 0 demo_reply 1200, RestTick 0 0]"

text \<open>
  The fallback path as a whole: the response arrives for call \<open>k\<close>, then the interval
  ticks once for every random number of \<open>rs\<close>. \<open>msgIdOf\<close> is the id the code picks for the
  Turn. \<open>reveal_marks n i rs\<close> lists the lengths of the prefixes shown before the end of
  a text of length \<open>n\<close> is reached, \<open>steps_3_8\<close> says that a list of lengths grows by 3 to
  8 at each step, and \<open>kind_of\<close> forgets all of a bubble operation but its kind.
\<close>

definition ticks :: "nat \<Rightarrow> real list \<Rightarrow> ChatWidget \<Rightarrow> ChatWidget" where
  "ticks k rs w = foldl (\<lambda>w' r. rest_tick k r w') w rs"

definition fallback_path :: "ChatWidget \<Rightarrow> nat \<Rightarrow> nat \<Rightarrow> RestData \<Rightarrow> nat \<Rightarrow> real list \<Rightarrow> ChatWidget" where
  "fallback_path w k st d now rs = ticks k rs (rest_reply k (Response st (Json d)) now w)"







definition demo_error_body :: RestData where
  "demo_error_body = \<lparr> conversation_id = None, message_id = None, data_content = None,
     data_sources = None, data_intent = None \<rparr>"


text \<open>
  Notions for what happens over a run of events. \<open>user_turns\<close> are the Turns of the
  user, \<open>message_frames\<close> the \<open>message\<close> frames that went out on the socket (pings left
  aside), \<open>inflight\<close> the number of calls of \<open>sendViaRest\<close> that have not finished, and
  \<open>sessions\<close> counts the live StreamSession, if the flag is set, together with the
  unfinished fallback calls.
\<close>

fun is_message :: "WSMessage \<Rightarrow> bool" where
  "is_message (Message t c) = True"
| "is_message Ping = False"
| "is_message Typing = False"

definition message_frames :: "ChatWidget \<Rightarrow> (nat \<times> WSMessage) list" where
  "message_frames w =
     (case ws_client w of None \<Rightarrow> [] | Some c \<Rightarrow> filter (\<lambda>f. is_message (snd f)) (wire c))"

definition user_turns :: "ChatWidget \<Rightarrow> ChatMessage list" where
  "user_turns w = filter (\<lambda>m. role m = User) (messages w)"

definition inflight :: "ChatWidget \<Rightarrow> nat" where
  "inflight w = length (filter (\<lambda>c. c \<noteq> Settled) (rest w))"

definition sessions :: "ChatWidget \<Rightarrow> nat" where
  "sessions w = (if isStreaming w then 1 else 0) + inflight w"

text \<open>
  \<open>signal_of e\<close> is the inbound message an event hands to \<open>handleWSMessage\<close>, if any. An
  event \<open>ends_stream\<close> when that message is a \<open>stream_end\<close> or an \<open>error\<close>, it is a
  \<open>stream_signal\<close> when it is one of these or a \<open>stream_start\<close>, and it \<open>finishes\<close> a
  fallback call when it is a failed response or the tick that reaches the end of the
  text; \<open>releases\<close> collects the events after which the code enables the input controls.
  \<open>steady ok w es\<close> says that every event of the run \<open>es\<close> from \<open>w\<close> satisfies \<open>ok\<close> in the
  state it meets. \<open>calm\<close> is the condition that no stream signal arrives while a
  fallback call is unfinished.
\<close>

definition signal_of :: "wevent \<Rightarrow> WSIncoming option" where
  "signal_of e = (case e of Transport (Received k (Parsed d)) now \<Rightarrow> Some d | _ \<Rightarrow> None)"

definition ends_stream :: "wevent \<Rightarrow> bool" where
  "ends_stream e =
     (case signal_of e of
        Some (stream_end m c s t) \<Rightarrow> True
      | Some (error m) \<Rightarrow> True
      | _ \<Rightarrow> False)"

definition stream_signal :: "wevent \<Rightarrow> bool" where
  "stream_signal e =
     (case signal_of e of
        Some (stream_start m) \<Rightarrow> True
      | Some (stream_end m c s t) \<Rightarrow> True
      | Some (error m) \<Rightarrow> True
      | _ \<Rightarrow> False)"

definition finishes :: "ChatWidget \<Rightarrow> wevent \<Rightarrow> bool" where
  "finishes w e =
     (case e of
        RestReply k NetworkError now \<Rightarrow> True
      | RestReply k (Response st NotJson) now \<Rightarrow> True
      | RestTick k r \<Rightarrow>
          k < length (rest w) \<and>
          (case rest w ! k of
             Revealing m full i s g \<Rightarrow> length full \<le> i + chunkSize r
           | _ \<Rightarrow> False)
      | _ \<Rightarrow> False)"

definition releases :: "ChatWidget \<Rightarrow> wevent \<Rightarrow> bool" where
  "releases w e \<longleftrightarrow> ends_stream e \<or> finishes w e"

definition calm :: "ChatWidget \<Rightarrow> wevent \<Rightarrow> bool" where
  "calm w e \<longleftrightarrow> inflight w = 0 \<or> \<not> stream_signal e"

definition no_end :: "ChatWidget \<Rightarrow> wevent \<Rightarrow> bool" where
  "no_end w e \<longleftrightarrow> \<not> ends_stream e"

definition no_release :: "ChatWidget \<Rightarrow> wevent \<Rightarrow> bool" where
  "no_release w e \<longleftrightarrow> \<not> releases w e"

fun steady :: "(ChatWidget \<Rightarrow> wevent \<Rightarrow> bool) \<Rightarrow> ChatWidget \<Rightarrow> wevent list \<Rightarrow> bool" where
  "steady ok w [] = True"
| "steady ok w (e # es) = (ok w e \<and> steady ok (wstep w e) es)"

text \<open>
  \<open>orderly\<close> is the invariant of calm runs; \<open>same_gate\<close> and \<open>settled_from\<close> describe the
  two effects a step of a fallback call can have on it.
\<close>

definition orderly :: "ChatWidget \<Rightarrow> bool" where
  "orderly w \<longleftrightarrow>
     sessions w \<le> 1 \<and>
     (sendBtn_disabled w \<longrightarrow> textarea_disabled w) \<and>
     (textarea_disabled w \<longrightarrow> sendBtn_disabled w) \<and>
     (inflight w = 0 \<or> sendBtn_disabled w)"

definition settled_from :: "ChatWidget \<Rightarrow> ChatWidget \<Rightarrow> bool" where
  "settled_from w w' \<longleftrightarrow>
     inflight w' + 1 = inflight w \<and> \<not> sendBtn_disabled w' \<and> \<not> textarea_disabled w' \<and>
     isStreaming w' = isStreaming w"

definition same_gate :: "ChatWidget \<Rightarrow> ChatWidget \<Rightarrow> bool" where
  "same_gate w w' \<longleftrightarrow>
     inflight w' = inflight w \<and> sendBtn_disabled w' = sendBtn_disabled w \<and>
     textarea_disabled w' = textarea_disabled w \<and> isStreaming w' = isStreaming w"

text \<open>Three runs used as examples, from \<open>demo_streaming\<close>, \<open>demo_fetching\<close> and a new widget.\<close>

definition demo_run_live :: "wevent list" where
  "demo_run_live =
     [TypeText (str ''more''), ClickSend 2100,
      Transport (Received 0 (Parsed (stream_chunk (str ''He'') (str ''m1'')))) 2101,
      PressEnter 2102]"

definition demo_run_fallback :: "wevent list" where
  "demo_run_fallback =
     [ClickSend 1150, RestReply 0 demo_reply 1200, RestTick 0 0, Transport (Opened 0) 1300,
      PressEnter 1310]"

definition demo_run_fresh :: "wevent list" where
  "demo_run_fresh =
     [SessionReady (str ''v1'') None 1000, TypeText (str ''a''), ClickSend 1100,
      RestReply 0 demo_reply 1200, RestTick 0 0]"

section \<open>Properties of the connection manager\<close>

lemma inv_new: "inv (connect (new_client u sid sg))"
  by (simp add: inv_def connect_def new_client_def)

lemma stopPing_clears: "inv c \<Longrightarrow> intervals (stopPing c) = [] \<and> pingInterval (stopPing c) = None"
  by (auto simp: inv_def stopPing_def clearInterval_def filter_empty_conv split: option.splits)

lemma stopPing_other:
  "sockets (stopPing c) = sockets c" "timeouts (stopPing c) = timeouts c"
  "ws (stopPing c) = ws c" "reconnectTimeout (stopPing c) = reconnectTimeout c"
  "maxReconnectAttempts (stopPing c) = maxReconnectAttempts c"
  "reconnectAttempts (stopPing c) = reconnectAttempts c"
  "wire (stopPing c) = wire c" "nextTimer (stopPing c) = nextTimer c"
  by (simp_all add: stopPing_def clearInterval_def split: option.splits)

lemma inv_send: "inv c \<Longrightarrow> inv (send m c)"
  by (auto simp: inv_def send_def split: option.splits)

lemma inv_opened: "inv c \<Longrightarrow> readyStateOf c k = CONNECTING \<Longrightarrow> inv (ws_onopen (setReadyState c k OPEN))"
  unfolding inv_def readyStateOf_def ws_onopen_def setReadyState_def startPing_def Let_def
  apply (simp split: if_splits add: nth_list_update)
  apply (intro conjI)
  apply (metis readyState.distinct)
      apply (metis readyState.distinct)
     apply (metis readyState.distinct)
  apply (metis readyState.distinct length_0_conv  length_pos_if_in_set less_numeral_extra(3) list.size(3))
  apply (metis readyState.distinct  )
  apply (metis readyState.distinct option.inject )
  done

lemma inv_received: "inv c \<Longrightarrow> inv (ws_onmessage f c)"
  by (auto simp: inv_def ws_onmessage_def split: frame.splits)

lemma closed_all:
  assumes "inv c" "k < length (sockets c)" "sockets c ! k \<noteq> CLOSED" "j < length (sockets c)"
  shows "(sockets c)[k := CLOSED] ! j = CLOSED"
  using assms unfolding inv_def by (cases "j = k") auto

lemma closed_no_timeouts:
  assumes "inv c" "k < length (sockets c)" "sockets c ! k \<noteq> CLOSED"
  shows "timeouts c = []"
  using assms unfolding inv_def by auto

lemma inv_closed: 
  assumes "inv c" "readyStateOf c k \<noteq> CLOSED"
  shows "inv (ws_onclose (setReadyState c k CLOSED))"
proof -
  from assms(2) have k: "k < length (sockets c)" "sockets c ! k \<noteq> CLOSED"
    by (auto simp: readyStateOf_def split: if_splits)
  let ?c1 = "setReadyState c k CLOSED"
  have all: "\<forall>j<length (sockets ?c1). sockets ?c1 ! j = CLOSED"
    using closed_all[OF assms(1) k] by (simp add: setReadyState_def)
  have t: "timeouts ?c1 = []" using closed_no_timeouts[OF assms(1) k] by (simp add: setReadyState_def)
  have i: "\<forall>h\<in>set (intervals ?c1). pingInterval ?c1 = Some h"
    using assms(1) by (simp add: inv_def setReadyState_def)
  let ?c2 = "stopPing ?c1"
  have i2: "intervals ?c2 = []"
    using i by (auto simp: stopPing_def clearInterval_def filter_empty_conv split: option.splits)
  have s2: "sockets ?c2 = sockets ?c1" "timeouts ?c2 = []"
    using t by (simp_all add: stopPing_other)
  show ?thesis
    using all i2 s2 unfolding inv_def ws_onclose_def tryReconnect_def Let_def
    by (auto simp: stopPing_other)
qed

lemma inv_timeout:
  assumes "inv c" "h \<in> fst ` set (timeouts c)"
  shows "inv (connect (clearTimeout h c))"
proof -
  let ?n = "length (sockets c)"
  let ?c' = "connect (clearTimeout h c)"
  from assms(2) have ne: "timeouts c \<noteq> []" by auto
  with assms(1) have all: "\<forall>k<?n. sockets c ! k = CLOSED" and i: "intervals c = []"
    unfolding inv_def by auto
  from assms(1) have tr: "\<forall>t\<in>set (timeouts c). reconnectTimeout c = Some (fst t)"
    by (simp add: inv_def)
  from assms(2) obtain t0 where "t0 \<in> set (timeouts c)" "fst t0 = h" by auto
  with tr have "reconnectTimeout c = Some h" by auto
  with tr have t: "\<forall>t\<in>set (timeouts c). fst t = h" by auto
  hence f: "filter (\<lambda>t. fst t \<noteq> h) (timeouts c) = []" by (simp add: filter_empty_conv)
  have fields: "sockets ?c' = sockets c @ [CONNECTING]" "ws ?c' = Some ?n"
    "timeouts ?c' = []" "intervals ?c' = []"
    using f i by (simp_all add: connect_def clearTimeout_def)
  have last: "k = ?n" if "k < length (sockets ?c')" "sockets ?c' ! k \<noteq> CLOSED" for k
  proof (rule ccontr)
    assume "k \<noteq> ?n"
    with that(1) have "k < ?n" by (simp add: fields)
    with all that(2) show False by (simp add: fields nth_append)
  qed
  show ?thesis
    unfolding inv_def
  proof (intro conjI allI impI ballI)
    fix i j assume "i < length (sockets ?c')" "j < length (sockets ?c')"
      "sockets ?c' ! i \<noteq> CLOSED" "sockets ?c' ! j \<noteq> CLOSED"
    thus "i = j" using last by blast
  next
    fix k assume "k < length (sockets ?c')" "sockets ?c' ! k = CONNECTING \<or> sockets ?c' ! k = OPEN"
    hence "k = ?n" using last by force
    thus "ws ?c' = Some k" by (simp add: fields)
  qed (simp_all add: fields)
qed

lemma readyStateOf_cong: "sockets a = sockets b \<Longrightarrow> readyStateOf a k = readyStateOf b k"
  by (simp add: readyStateOf_def)

lemma disconnect_fields:
  "ws (disconnect c) = None"
  "maxReconnectAttempts (disconnect c) = 0"
  "pingInterval (disconnect c) = None"
  "intervals (disconnect c) =
     (case pingInterval c of None \<Rightarrow> intervals c | Some h \<Rightarrow> filter (\<lambda>i. i \<noteq> h) (intervals c))"
  "timeouts (disconnect c) =
     (case reconnectTimeout c of None \<Rightarrow> timeouts c | Some h \<Rightarrow> filter (\<lambda>t. fst t \<noteq> h) (timeouts c))"
  "wire (disconnect c) = wire c"
  "calls (disconnect c) = calls c"
  "reconnectAttempts (disconnect c) = reconnectAttempts c"
  by (simp_all add: disconnect_def Let_def stopPing_def clearInterval_def clearTimeout_def
        socket_close_def setReadyState_def split: option.splits)

lemma disconnect_sockets:
  "sockets (disconnect c) =
     (case ws c of None \<Rightarrow> sockets c
      | Some k \<Rightarrow> if readyStateOf c k = CONNECTING \<or> readyStateOf c k = OPEN
                  then (sockets c)[k := CLOSING] else sockets c)"
proof -
  let ?c3 = "case reconnectTimeout (stopPing (c\<lparr>maxReconnectAttempts := 0\<rparr>)) of
               None \<Rightarrow> stopPing (c\<lparr>maxReconnectAttempts := 0\<rparr>)
             | Some h \<Rightarrow> clearTimeout h (stopPing (c\<lparr>maxReconnectAttempts := 0\<rparr>))"
  have s: "sockets ?c3 = sockets c" and w: "ws ?c3 = ws c"
    by (simp_all add: stopPing_def clearInterval_def clearTimeout_def split: option.splits)
  have r: "readyStateOf ?c3 k = readyStateOf c k" for k
    using s by (rule readyStateOf_cong)
  show ?thesis
    unfolding disconnect_def Let_def
    by (cases "ws c") (simp_all add: w s r socket_close_def setReadyState_def)
qed

lemma tracked_filter_timeouts:
  assumes "\<forall>t\<in>set ts. r = Some (fst t)"
  shows "(case r of None \<Rightarrow> ts | Some h \<Rightarrow> filter (\<lambda>t. fst t \<noteq> h) ts) = []"
proof (cases r)
  case None
  with assms show ?thesis by (cases ts) auto
next
  case (Some h)
  with assms show ?thesis by (auto simp: filter_empty_conv)
qed

lemma tracked_filter_intervals:
  assumes "\<forall>i\<in>set is. r = Some i"
  shows "(case r of None \<Rightarrow> is | Some h \<Rightarrow> filter (\<lambda>i. i \<noteq> h) is) = []"
proof (cases r)
  case None
  with assms show ?thesis by (cases "is") auto
next
  case (Some h)
  with assms show ?thesis by (auto simp: filter_empty_conv)
qed

lemma down_disconnect:
  assumes "inv c"
  shows "down (disconnect c)"
proof -
  have t: "timeouts (disconnect c) = []"
    using assms by (simp add: disconnect_fields inv_def tracked_filter_timeouts)
  have i: "intervals (disconnect c) = []"
    using assms by (simp add: disconnect_fields inv_def tracked_filter_intervals)
  have j1: "\<forall>k<length (sockets c). sockets c ! k = CONNECTING \<or> sockets c ! k = OPEN \<longrightarrow> ws c = Some k"
    using assms by (simp add: inv_def)
  have s: "\<forall>k<length (sockets (disconnect c)).
             sockets (disconnect c) ! k = CLOSING \<or> sockets (disconnect c) ! k = CLOSED"
  proof (intro allI impI)
    fix k assume "k < length (sockets (disconnect c))"
    hence kl: "k < length (sockets c)"
      by (simp add: disconnect_sockets split: option.splits if_splits)
    show "sockets (disconnect c) ! k = CLOSING \<or> sockets (disconnect c) ! k = CLOSED"
    proof (cases "sockets c ! k = CONNECTING \<or> sockets c ! k = OPEN")
      case True
      with j1 kl have "ws c = Some k" by blast
      with True kl show ?thesis by (auto simp: disconnect_sockets readyStateOf_def)
    next
      case False
      hence "sockets c ! k = CLOSING \<or> sockets c ! k = CLOSED"
        by (cases "sockets c ! k") auto
      with kl show ?thesis
        by (auto simp: disconnect_sockets readyStateOf_def nth_list_update split: option.splits)
    qed
  qed
  show ?thesis using t i s by (simp add: down_def disconnect_fields)
qed


lemma down_fire: "down c \<Longrightarrow> down (fire c e) \<and> wire (fire c e) = wire c \<and> length (sockets (fire c e)) = length (sockets c)"
proof (cases e)
  case (Opened k)
  assume "down c"
  hence "readyStateOf c k \<noteq> CONNECTING" by (auto simp: down_def readyStateOf_def)
  with \<open>down c\<close> Opened show ?thesis by (simp add: fire_def)
next
  case (Received k f)
  assume "down c"
  hence "readyStateOf c k \<noteq> OPEN" by (auto simp: down_def readyStateOf_def)
  with \<open>down c\<close> Received show ?thesis by (simp add: fire_def)
next
  case (Closed k)
  assume d: "down c"
  show ?thesis
  proof (cases "readyStateOf c k = CLOSED")
    case True
    with d Closed show ?thesis by (simp add: fire_def)
  next
    case False
    hence k: "k < length (sockets c)" by (simp add: readyStateOf_def split: if_splits)
    have "fire c e = (setReadyState c k CLOSED)\<lparr>calls := calls c @ [OnClose]\<rparr>"
      using d False Closed
      by (simp add: fire_def ws_onclose_def stopPing_def tryReconnect_def setReadyState_def down_def)
    moreover have "(sockets c)[k := CLOSED] ! j = CLOSING \<or> (sockets c)[k := CLOSED] ! j = CLOSED"
      if "j < length (sockets c)" for j
      using d that by (cases "j = k") (simp_all add: down_def)
    ultimately show ?thesis using d by (simp add: down_def setReadyState_def)
  qed
next
  case (Errored k)
  assume "down c"
  with Errored show ?thesis by (simp add: fire_def ws_onerror_def)
next
  case (TimeoutFired h)
  assume "down c"
  with TimeoutFired show ?thesis by (simp add: fire_def down_def)
next
  case (IntervalFired h)
  assume "down c"
  with IntervalFired show ?thesis by (simp add: fire_def down_def)
qed

lemma down_act:
  assumes "down c"
  shows "down (act c a) \<and> wire (act c a) = wire c \<and> length (sockets (act c a)) = length (sockets c)"
proof (cases a)
  case (Event e)
  with down_fire[OF assms] show ?thesis by (simp add: act_def)
next
  case (Send m)
  with assms show ?thesis by (simp add: act_def send_def down_def)
next
  case Disconnect
  have "timeouts c = []" "intervals c = []" "pingInterval c = None" "ws c = None" "maxReconnectAttempts c = 0"
    using assms by (simp_all add: down_def)
  hence "disconnect c = c"
    by (cases "reconnectTimeout c") (simp_all add: disconnect_def Let_def stopPing_def clearTimeout_def)
  with assms Disconnect show ?thesis by (simp add: act_def)
qed

lemma down_run:
  "down c \<Longrightarrow> down (foldl act c bs) \<and> wire (foldl act c bs) = wire c
     \<and> length (sockets (foldl act c bs)) = length (sockets c)"
proof (induction bs arbitrary: c)
  case Nil
  then show ?case by simp
next
  case (Cons b bs)
  from down_act[OF Cons.prems, of b] Cons.IH[of "act c b"] show ?case by simp
qed

lemma inv_fire: "inv c \<Longrightarrow> inv (fire c e)"
  by (cases e) (simp_all add: fire_def inv_opened inv_received inv_closed inv_timeout inv_send ws_onerror_def)

lemma inv_or_down_act: "inv c \<or> down c \<Longrightarrow> inv (act c a) \<or> down (act c a)"
proof (cases a)
  case (Event e)
  assume "inv c \<or> down c"
  with Event show ?thesis using inv_fire down_fire by (auto simp: act_def)
next
  case (Send m)
  assume "inv c \<or> down c"
  with Send show ?thesis using inv_send down_act[of c a] by (auto simp: act_def)
next
  case Disconnect
  assume "inv c \<or> down c"
  with Disconnect show ?thesis using down_disconnect down_act[of c a] by (auto simp: act_def)
qed

lemma inv_or_down_run: "inv c \<or> down c \<Longrightarrow> inv (foldl act c as) \<or> down (foldl act c as)"
proof (induction as arbitrary: c)
  case Nil
  then show ?case by simp
next
  case (Cons a as)
  from inv_or_down_act[OF Cons.prems, of a] show ?case by (simp add: Cons.IH)
qed

lemma lifecycle_inv: "inv (lifecycle u sid sg as) \<or> down (lifecycle u sid sg as)"
  unfolding lifecycle_def by (rule inv_or_down_run) (simp add: inv_new)

lemma lifecycle_disconnect_down: "down (disconnect (lifecycle u sid sg as))"
  using lifecycle_inv[of u sid sg as] down_disconnect down_act[of "lifecycle u sid sg as" Disconnect]
  by (auto simp: act_def)

text \<open>
  Claim C5. \<open>disconnect\<close> sets the maximum attempt count to 0, stops the KeepAlive
  interval, cancels the pending reconnect timeout and closes the transport: in the state
  \<open>d\<close> it leaves, no timer is live and every socket is closing or closed. Whatever
  transport events, timer events, sends or further disconnects \<open>bs\<close> follow, nothing is
  transmitted (so no ping), no timeout is scheduled, no interval is started and no socket
  is opened. The client is any client in the life the widget gives it: created,
  connected once, then driven by \<open>as\<close>.
\<close>

theorem disconnect_terminal:
  "let d = disconnect (lifecycle u sid sg as); d' = foldl act d bs in
     maxReconnectAttempts d = 0 \<and> pingInterval d = None \<and> intervals d = [] \<and>
     timeouts d = [] \<and> ws d = None \<and>
     list_all (\<lambda>r. r = CLOSING \<or> r = CLOSED) (sockets d) \<and>
     wire d' = wire d \<and> timeouts d' = [] \<and> intervals d' = [] \<and>
     maxReconnectAttempts d' = 0 \<and> length (sockets d') = length (sockets d)"
proof -
  let ?d = "disconnect (lifecycle u sid sg as)"
  have d: "down ?d" by (rule lifecycle_disconnect_down)
  have d': "down (foldl act ?d bs)" "wire (foldl act ?d bs) = wire ?d"
    "length (sockets (foldl act ?d bs)) = length (sockets ?d)"
    using down_run[OF d, of bs] by simp_all
  have "list_all (\<lambda>r. r = CLOSING \<or> r = CLOSED) (sockets ?d)"
    using d by (auto simp: down_def list_all_length)
  thus ?thesis using d d' by (simp add: Let_def down_def)
qed


lemmas client_defs =
  lifecycle_def act_def fire_def connect_def new_client_def readyStateOf_def setReadyState_def
  ws_onopen_def ws_onclose_def ws_onmessage_def ws_onerror_def startPing_def stopPing_def
  tryReconnect_def clearTimeout_def clearInterval_def send_def disconnect_def socket_close_def
  isConnected_def Let_def

text \<open>
  Claim C4, as stated, fails: \<open>connect\<close> has no guard. Called on a client whose socket
  is open it creates a second socket, and called after \<open>disconnect\<close> it creates a socket
  again.
\<close>

theorem connect_idempotent_counterexample:
  "isConnected demo_open \<and> sockets demo_open = [OPEN] \<and>
   sockets (connect demo_open) = [OPEN, CONNECTING] \<and> connect demo_open \<noteq> demo_open \<and>
   sockets (disconnect demo_open) = [CLOSING] \<and>
   sockets (connect (disconnect demo_open)) = [CLOSING, CONNECTING] \<and>
   connect (disconnect demo_open) \<noteq> disconnect demo_open"
proof -
  have a: "sockets demo_open = [OPEN]" "ws demo_open = Some 0"
    by (simp_all add: demo_open_def client_defs)
  have b: "sockets (connect demo_open) = [OPEN, CONNECTING]"
    using a by (simp add: connect_def)
  have c: "sockets (disconnect demo_open) = [CLOSING]"
    by (simp add: demo_open_def client_defs)
  have d: "sockets (connect (disconnect demo_open)) = [CLOSING, CONNECTING]"
    using c by (simp add: connect_def)
  have "isConnected demo_open" using a by (simp add: isConnected_def readyStateOf_def)
  moreover have "connect demo_open \<noteq> demo_open" using a b by auto
  moreover have "connect (disconnect demo_open) \<noteq> disconnect demo_open" using c d by auto
  ultimately show ?thesis using a b c d by simp
qed

text \<open>
  Claim C4, amended. Every call of \<open>connect\<close>, in every state, opens one new socket in
  state \<open>CONNECTING\<close> and makes it the current one (so the client is not connected
  right after the call), and changes neither the attempt counter, the maximum, the timers
  nor what was sent. Duplicate transports are avoided by the callers: in the life of a
  client the reconnect timeout, the only caller besides the widget's single call, is
  pending only while every socket is closed, and after \<open>disconnect\<close> no event opens a
  socket again.
\<close>

theorem connect_unguarded:
  "sockets (connect c) = sockets c @ [CONNECTING] \<and>
   ws (connect c) = Some (length (sockets c)) \<and>
   \<not> isConnected (connect c) \<and> connect c \<noteq> c \<and>
   reconnectAttempts (connect c) = reconnectAttempts c \<and>
   maxReconnectAttempts (connect c) = maxReconnectAttempts c \<and>
   timeouts (connect c) = timeouts c \<and> intervals (connect c) = intervals c \<and>
   wire (connect c) = wire c \<and>
   (timeouts (lifecycle u sid sg as) \<noteq> [] \<longrightarrow>
      list_all (\<lambda>r. r = CLOSED) (sockets (lifecycle u sid sg as))) \<and>
   length (sockets (foldl act (disconnect (lifecycle u sid sg as)) bs)) =
     length (sockets (disconnect (lifecycle u sid sg as)))"
proof -
  have s: "sockets (connect c) = sockets c @ [CONNECTING]" by (simp add: connect_def)
  hence ne: "connect c \<noteq> c" by auto
  have nc: "\<not> isConnected (connect c)"
    by (simp add: isConnected_def connect_def readyStateOf_def)
  have lc: "timeouts (lifecycle u sid sg as) \<noteq> [] \<longrightarrow>
      list_all (\<lambda>r. r = CLOSED) (sockets (lifecycle u sid sg as))"
    using lifecycle_inv[of u sid sg as] by (auto simp: inv_def down_def list_all_length)
  have ln: "length (sockets (foldl act (disconnect (lifecycle u sid sg as)) bs)) =
     length (sockets (disconnect (lifecycle u sid sg as)))"
    using down_run[OF lifecycle_disconnect_down, of u sid sg as bs] by simp
  show ?thesis using s ne nc lc ln by (simp add: connect_def)
qed

theorem connect_unguarded_witness:
  "timeouts (lifecycle (str ''https://api.example'') (str ''v1'') None [Event (Closed 0)]) \<noteq> [] \<and>
   list_all (\<lambda>r. r = CLOSED)
     (sockets (lifecycle (str ''https://api.example'') (str ''v1'') None [Event (Closed 0)])) \<and>
   sockets (connect demo_open) = sockets demo_open @ [CONNECTING] \<and>
   \<not> isConnected (connect demo_open)"
  using connect_unguarded [of demo_open "str ''https://api.example''" "str ''v1''" None
      "[Event (Closed 0)]" "[]"]
  by (simp add: client_defs)

lemma tryReconnect_schedules:
  assumes "reconnectAttempts c < maxReconnectAttempts c"
  shows "tryReconnect c =
     c\<lparr> reconnectAttempts := reconnectAttempts c + 1,
        reconnectTimeout := Some (nextTimer c),
        timeouts := timeouts c @ [(nextTimer c, min (1000 * 2 ^ reconnectAttempts c) 30000)],
        nextTimer := nextTimer c + 1 \<rparr>"
  using assms by (simp add: tryReconnect_def)

lemma tryReconnect_gives_up:
  assumes "maxReconnectAttempts c \<le> reconnectAttempts c"
  shows "tryReconnect c = c"
  using assms by (simp add: tryReconnect_def)

lemma small_power_below_cap:
  assumes "n \<le> 4"
  shows "min (1000 * 2 ^ n) (30000::nat) = 1000 * 2 ^ n"
proof -
  have "(2::nat) ^ n \<le> 2 ^ 4" using assms by (intro power_increasing) simp_all
  hence "1000 * (2::nat) ^ n \<le> 16000" by simp
  thus ?thesis by simp
qed

text \<open>
  Claim C6. With the default maximum of 5 attempts, the \<open>N\<close>-th close since the last
  open (\<open>1 \<le> N \<le> 5\<close>, the counter standing at \<open>N - 1\<close>) schedules a reconnect after
  \<open>min (1000 * 2 ^ (N - 1)) 30000\<close> milliseconds, which below the sixth attempt is the
  uncapped \<open>1000 * 2 ^ (N - 1)\<close>, and moves the counter to \<open>N\<close>; after the fifth, a
  further close schedules nothing; an open resets the counter to 0, and the close after
  it schedules the base delay of 1000 milliseconds.
\<close>

theorem backoff_delay:
  assumes "maxReconnectAttempts c = 5" and "1 \<le> N" and "N \<le> 5"
    and "reconnectAttempts c = N - 1"
  shows "timeouts (ws_onclose c) = timeouts c @ [(nextTimer c, min (1000 * 2 ^ (N - 1)) 30000)] \<and>
     min (1000 * 2 ^ (N - 1)) (30000::nat) = 1000 * 2 ^ (N - 1) \<and>
     reconnectTimeout (ws_onclose c) = Some (nextTimer c) \<and>
     reconnectAttempts (ws_onclose c) = N \<and>
     (N = 5 \<longrightarrow> timeouts (ws_onclose (ws_onclose c)) = timeouts (ws_onclose c)) \<and>
     reconnectAttempts (ws_onopen c) = 0 \<and>
     timeouts (ws_onclose (ws_onopen c)) = timeouts c @ [(nextTimer c + 1, 1000)]"
proof -
  let ?c1 = "(stopPing c)\<lparr>calls := calls (stopPing c) @ [OnClose]\<rparr>"
  have lt: "reconnectAttempts ?c1 < maxReconnectAttempts ?c1"
    using assms by (simp add: stopPing_other)
  have oc: "ws_onclose c = tryReconnect ?c1" by (simp add: ws_onclose_def Let_def)
  have f: "timeouts (ws_onclose c) = timeouts c @ [(nextTimer c, min (1000 * 2 ^ (N - 1)) 30000)]"
    "reconnectTimeout (ws_onclose c) = Some (nextTimer c)"
    "reconnectAttempts (ws_onclose c) = N"
    "maxReconnectAttempts (ws_onclose c) = 5"
    using assms by (simp_all add: oc tryReconnect_schedules[OF lt] stopPing_other)
  have cap: "min (1000 * 2 ^ (N - 1)) (30000::nat) = 1000 * 2 ^ (N - 1)"
    using assms by (intro small_power_below_cap) simp
  have last: "timeouts (ws_onclose (ws_onclose c)) = timeouts (ws_onclose c)" if "N = 5"
  proof -
    let ?d = "ws_onclose c"
    let ?d1 = "(stopPing ?d)\<lparr>calls := calls (stopPing ?d) @ [OnClose]\<rparr>"
    have "maxReconnectAttempts ?d1 \<le> reconnectAttempts ?d1"
      using f that by (simp add: stopPing_other)
    hence "tryReconnect ?d1 = ?d1" by (rule tryReconnect_gives_up)
    hence "ws_onclose ?d = ?d1" by (simp add: ws_onclose_def Let_def)
    thus ?thesis by (simp add: stopPing_other)
  qed
  have op: "reconnectAttempts (ws_onopen c) = 0" "maxReconnectAttempts (ws_onopen c) = 5"
    "timeouts (ws_onopen c) = timeouts c" "nextTimer (ws_onopen c) = nextTimer c + 1"
    using assms by (simp_all add: ws_onopen_def startPing_def Let_def)
  let ?o1 = "(stopPing (ws_onopen c))\<lparr>calls := calls (stopPing (ws_onopen c)) @ [OnClose]\<rparr>"
  have lt2: "reconnectAttempts ?o1 < maxReconnectAttempts ?o1"
    using op by (simp add: stopPing_other)
  have "ws_onclose (ws_onopen c) = tryReconnect ?o1" by (simp add: ws_onclose_def Let_def)
  hence re: "timeouts (ws_onclose (ws_onopen c)) = timeouts c @ [(nextTimer c + 1, 1000)]"
    using op by (simp add: tryReconnect_schedules[OF lt2] stopPing_other)
  show ?thesis using f cap last op re by simp
qed

theorem backoff_delay_witness:
  "maxReconnectAttempts demo_dropped = 5 \<and> (1::nat) \<le> 5 \<and> (5::nat) \<le> 5 \<and>
   reconnectAttempts demo_dropped = 5 - 1 \<and>
   timeouts demo_dropped = [] \<and>
   timeouts (ws_onclose demo_dropped) = [(5, 16000)] \<and>
   reconnectAttempts (ws_onclose demo_dropped) = 5 \<and>
   timeouts (ws_onclose (ws_onclose demo_dropped)) = [(5, 16000)] \<and>
   timeouts (ws_onclose (ws_onopen demo_dropped)) = [(6, 1000)]"
proof -
  have h: "maxReconnectAttempts demo_dropped = 5" "reconnectAttempts demo_dropped = 5 - 1"
    "timeouts demo_dropped = []" "nextTimer demo_dropped = 5"
    by (simp_all add: demo_dropped_def client_defs)
  show ?thesis using h backoff_delay [OF h(1) _ _ h(2)] by simp
qed

section \<open>Properties of the widget\<close>

lemma trim_blank:
  assumes "list_all isWhiteSpace s"
  shows "trim s = []"
proof -
  have e: "dropWhile isWhiteSpace s = []"
    using assms by (simp add: dropWhile_eq_Nil_conv list_all_iff)
  show ?thesis unfolding trim_def e by simp
qed

text \<open>
  Claim C10. When the textarea holds only whitespace (or nothing), \<open>sendMessage\<close>, and
  with it a click on the send button and Enter in the textarea, returns the state it was
  given: no Turn is appended, the typing row is not shown, no control is disabled, nothing
  is sent and no request is issued.
\<close>

theorem blank_submit_noop:
  "list_all isWhiteSpace (textarea_value w) \<Longrightarrow>
     sendMessage w now = w \<and> clickSend now w = w \<and> pressEnter now w = w"
  by (simp add: sendMessage_def clickSend_def pressEnter_def trim_blank)

lemma feed_Nil: "feed w [] = w"
  by (simp add: feed_def)

lemma feed_Cons: "feed w (d # ds) = feed (handleWSMessage w (fst d) (snd d)) ds"
  by (simp add: feed_def)

lemma feed_append: "feed w (ds @ es) = feed (feed w ds) es"
  by (simp add: feed_def)

lemma handle_chunk:
  "handleWSMessage w (stream_chunk c mid) t =
     w\<lparr> currentStreamContent := currentStreamContent w @ c,
        view := view w @ (if hasElement w mid then [SetText mid (currentStreamContent w @ c)] else []) \<rparr>"
  by (simp add: handleWSMessage_def updateStreamingMessage_def hasElement_def)

lemma feed_chunks:
  "feed w (chunk_signals mid cts) =
     w\<lparr> currentStreamContent := currentStreamContent w @ concat (map fst cts),
        view := view w @ (if hasElement w mid
                          then map (SetText mid) (accumulate (currentStreamContent w) (map fst cts))
                          else []) \<rparr>"
proof (induction cts arbitrary: w)
  case Nil
  then show ?case by (simp add: chunk_signals_def feed_Nil)
next
  case (Cons ct cts)
  have "feed w (chunk_signals mid (ct # cts))
        = feed (handleWSMessage w (stream_chunk (fst ct) mid) (snd ct)) (chunk_signals mid cts)"
    by (simp add: chunk_signals_def feed_Cons)
  also have "\<dots> = w\<lparr> currentStreamContent := currentStreamContent w @ concat (map fst (ct # cts)),
        view := view w @ (if hasElement w mid
                          then map (SetText mid) (accumulate (currentStreamContent w) (map fst (ct # cts)))
                          else []) \<rparr>"
    by (simp add: Cons.IH handle_chunk hasElement_def)
  finally show ?case .
qed

lemma update_first_fresh:
  "\<forall>x\<in>set xs. \<not> p x \<Longrightarrow> p y \<Longrightarrow> update_first p f (xs @ [y]) = xs @ [f y]"
  by (induction xs) simp_all

lemma update_first_none: "\<forall>x\<in>set xs. \<not> p x \<Longrightarrow> update_first p f xs = xs"
  by (induction xs) simp_all

lemma find_update_first:
  "(\<And>x. p x \<Longrightarrow> p (f x)) \<Longrightarrow> find p (update_first p f xs) = map_option f (find p xs)"
  by (induction xs) simp_all

lemma map_ident_update_first:
  "(\<And>x. ident (f x) = ident x) \<Longrightarrow> map ident (update_first p f xs) = map ident xs"
  by (induction xs) simp_all

lemma image_ident_update_first:
  assumes "\<And>x. ident (f x) = ident x"
  shows "ident ` set (update_first p f xs) = ident ` set xs"
proof -
  have "set (map ident (update_first p f xs)) = set (map ident xs)"
    using assms by (simp only: map_ident_update_first)
  thus ?thesis by simp
qed

lemma find_snoc: "p y \<Longrightarrow> find p (xs @ [y]) = (case find p xs of None \<Rightarrow> Some y | Some x \<Rightarrow> Some x)"
  by (induction xs) simp_all

lemma handle_start:
  "handleWSMessage w (stream_start mid) t =
     w\<lparr> isStreaming := True, currentStreamId := mid, currentStreamContent := [], typing := False,
        messages := messages w @ [\<lparr> ident = mid, role = Assistant, content = [], sources = None,
                     intent = None, timestamp = t, streaming = True \<rparr>],
        view := view w @ [Bubble mid Assistant [] True] \<rparr>"
  by (simp add: handleWSMessage_def addMessage_def removeTypingIndicator_def)

lemma handle_end:
  "handleWSMessage w (stream_end mid conv srcs tag) t =
     w\<lparr> isStreaming := False,
        conversationId := (if truthy conv then conv else conversationId w),
        messages := update_first (\<lambda>m. ident m = mid)
                     (\<lambda>m. m\<lparr> content := currentStreamContent w, sources := Some srcs,
                              intent := Some tag, streaming := False \<rparr>) (messages w),
        view := view w @ (if hasElement w mid then [SetHtml mid (currentStreamContent w)] else []),
        sendBtn_disabled := False, textarea_disabled := False \<rparr>"
  by (simp add: handleWSMessage_def finalizeMessage_def hasElement_def Let_def image_ident_update_first)

lemma live_path_fields:
  "messages (live_path w mid t0 cts conv srcs tag t1) =
     update_first (\<lambda>m. ident m = mid)
       (\<lambda>m. m\<lparr> content := concat (map fst cts), sources := Some srcs,
                intent := Some tag, streaming := False \<rparr>)
       (messages w @ [placeholder mid t0])"
  "view (live_path w mid t0 cts conv srcs tag t1) =
     view w @ [Bubble mid Assistant [] True]
       @ map (SetText mid) (accumulate [] (map fst cts))
       @ [SetHtml mid (concat (map fst cts))]"
  "isStreaming (live_path w mid t0 cts conv srcs tag t1) = False"
  "currentStreamContent (live_path w mid t0 cts conv srcs tag t1) = concat (map fst cts)"
  "conversationId (live_path w mid t0 cts conv srcs tag t1) =
     (if truthy conv then conv else conversationId w)"
  by (simp_all add: live_path_def feed_append feed_Cons feed_Nil feed_chunks handle_start
        handle_end hasElement_def placeholder_def)

text \<open>
  Claim C1. After \<open>stream_start\<close> for \<open>mid\<close>, the chunks \<open>cts\<close> for \<open>mid\<close> in arrival
  order and \<open>stream_end\<close> for \<open>mid\<close>, the Turn found under \<open>mid\<close> has as content the
  concatenation of the chunk contents, carries the sources and the tag, and is no longer
  accumulating. When no earlier Turn has the id \<open>mid\<close>, the list of Turns is the old
  one followed by that assistant Turn. Every chunk produced its own update of the bubble,
  in order, showing the text accumulated so far.
\<close>

theorem stream_content_is_concat:
  "(case find (\<lambda>m. ident m = mid) (messages (live_path w mid t0 cts conv srcs tag t1)) of
      None \<Rightarrow> False
    | Some m \<Rightarrow> content m = concat (map fst cts) \<and> sources m = Some srcs \<and>
               intent m = Some tag \<and> \<not> streaming m) \<and>
   (\<not> hasElement w mid \<longrightarrow>
      messages (live_path w mid t0 cts conv srcs tag t1) =
        messages w @ [\<lparr> ident = mid, role = Assistant, content = concat (map fst cts),
                        sources = Some srcs, intent = Some tag, timestamp = t0,
                        streaming = False \<rparr>]) \<and>
   view (live_path w mid t0 cts conv srcs tag t1) =
     view w @ [Bubble mid Assistant [] True]
       @ map (SetText mid) (accumulate [] (map fst cts))
       @ [SetHtml mid (concat (map fst cts))]"
proof -
  let ?f = "\<lambda>m. m\<lparr> content := concat (map fst cts), sources := Some srcs,
                intent := Some tag, streaming := False \<rparr>"
  let ?p = "\<lambda>m. ident m = mid"
  have pf: "\<And>x. ?p x \<Longrightarrow> ?p (?f x)" by simp
  have "find ?p (messages (live_path w mid t0 cts conv srcs tag t1))
        = map_option ?f (find ?p (messages w @ [placeholder mid t0]))"
    by (simp only: live_path_fields find_update_first[of ?p ?f, OF pf])
  also have "find ?p (messages w @ [placeholder mid t0])
        = (case find ?p (messages w) of None \<Rightarrow> Some (placeholder mid t0) | Some x \<Rightarrow> Some x)"
    by (rule find_snoc) (simp add: placeholder_def)
  finally have a: "case find ?p (messages (live_path w mid t0 cts conv srcs tag t1)) of
      None \<Rightarrow> False
    | Some m \<Rightarrow> content m = concat (map fst cts) \<and> sources m = Some srcs \<and>
               intent m = Some tag \<and> \<not> streaming m"
    by (simp split: option.splits)
  have b: "messages (live_path w mid t0 cts conv srcs tag t1) =
        messages w @ [\<lparr> ident = mid, role = Assistant, content = concat (map fst cts),
                        sources = Some srcs, intent = Some tag, timestamp = t0,
                        streaming = False \<rparr>]" if "\<not> hasElement w mid"
  proof -
    from that have "\<forall>x\<in>set (messages w). \<not> ?p x" by (auto simp: hasElement_def)
    hence "update_first ?p ?f (messages w @ [placeholder mid t0]) = messages w @ [?f (placeholder mid t0)]"
      by (rule update_first_fresh) (simp add: placeholder_def)
    thus ?thesis by (simp add: live_path_fields placeholder_def)
  qed
  show ?thesis using a b by (simp add: live_path_fields)
qed

lemmas widget_defs =
  wrun_def wstep_def new_widget_def initSession_ok_def connectWS_def addMessage_def
  transport_def deliver_def truthy_def orUndefined_def

lemma demo_widget_fields:
  "messages demo_widget =
     [\<lparr> ident = str ''welcome'', role = Assistant, content = defaultWelcome, sources = None,
        intent = None, timestamp = 1000, streaming = False \<rparr>]"
  "view demo_widget = [Bubble (str ''welcome'') Assistant defaultWelcome False]"
  "isStreaming demo_widget = False"
  "currentStreamContent demo_widget = []"
  "wsConnected demo_widget"
  "conversationId demo_widget = Some []"
  "sendBtn_disabled demo_widget = False"
  "textarea_disabled demo_widget = False"
  "requests demo_widget = []"
  "rest demo_widget = []"
  by (simp_all add: demo_widget_def widget_defs client_defs wsConnected_def)

theorem stream_content_is_concat_witness:
  "\<not> hasElement demo_widget (str ''m1'') \<and>
   map content (messages (live_path demo_widget (str ''m1'') 2000
      [(str ''He'', 2001), (str ''llo'', 2002)] None [] (str ''faq'') 2003))
     = [defaultWelcome, str ''Hello''] \<and>
   map streaming (messages (live_path demo_widget (str ''m1'') 2000
      [(str ''He'', 2001), (str ''llo'', 2002)] None [] (str ''faq'') 2003))
     = [False, False]"
  using stream_content_is_concat [where mid = "str ''m1''" and w = demo_widget and ?t0.0 = 2000
      and cts = "[(str ''He'', 2001), (str ''llo'', 2002)]" and conv = None and srcs = "[]"
      and tag = "str ''faq''" and ?t1.0 = 2003]
  by (simp add: hasElement_def demo_widget_fields str_def)

theorem blank_submit_noop_witness:
  "list_all isWhiteSpace (textarea_value (typeText [32, 9, 10, 160] demo_widget)) \<and>
   sendMessage (typeText [32, 9, 10, 160] demo_widget) 3000 = typeText [32, 9, 10, 160] demo_widget \<and>
   clickSend 3000 (typeText [32, 9, 10, 160] demo_widget) = typeText [32, 9, 10, 160] demo_widget"
  using blank_submit_noop [of "typeText [32, 9, 10, 160] demo_widget" 3000]
  by (simp add: typeText_def demo_widget_fields isWhiteSpace_def)

text \<open>
  Claim C2, as stated, fails. While \<open>m1\<close> is streaming, a chunk \<open>X\<close> for \<open>m2\<close> ends up
  in the content finalized for \<open>m1\<close>; and a \<open>stream_end\<close> naming an older Turn (here the
  welcome Turn, with no stream active) overwrites the content of that Turn.
\<close>

theorem stray_chunk_counterexample:
  "currentStreamId (feed demo_widget [(stream_start (str ''m1''), 2000)]) = str ''m1'' \<and>
   str ''m2'' \<noteq> str ''m1'' \<and>
   map content (messages (feed demo_widget
      [(stream_start (str ''m1''), 2000), (stream_chunk (str ''a'') (str ''m1''), 2002),
       (stream_end (str ''m1'') None [] (str ''faq''), 2003)]))
     = [defaultWelcome, str ''a''] \<and>
   map content (messages (feed demo_widget
      [(stream_start (str ''m1''), 2000), (stream_chunk (str ''X'') (str ''m2''), 2001),
       (stream_chunk (str ''a'') (str ''m1''), 2002),
       (stream_end (str ''m1'') None [] (str ''faq''), 2003)]))
     = [defaultWelcome, str ''Xa''] \<and>
   map content (messages (handleWSMessage demo_widget
      (stream_end (str ''welcome'') None [] (str ''faq'')) 2000)) = [Nil]"
  by (simp add: feed_Cons feed_Nil handle_start handle_chunk handle_end demo_widget_fields
        hasElement_def str_def)

text \<open>
  Claim C2, amended. A \<open>stream_chunk\<close> or \<open>stream_end\<close> whose \<open>message_id\<close> is the id of
  no Turn in the list (so not that of the Turn being accumulated either) changes no Turn,
  creates none and updates no bubble; the function is total, so nothing is thrown. Such a
  \<open>stream_end\<close> leaves the accumulated text as it is.
\<close>

theorem unknown_id_changes_no_turn:
  assumes "\<not> hasElement w mid"
  shows "messages (handleWSMessage w (stream_chunk c mid) t) = messages w \<and>
     view (handleWSMessage w (stream_chunk c mid) t) = view w \<and>
     messages (handleWSMessage w (stream_end mid conv srcs tag) t) = messages w \<and>
     view (handleWSMessage w (stream_end mid conv srcs tag) t) = view w \<and>
     currentStreamContent (handleWSMessage w (stream_end mid conv srcs tag) t)
       = currentStreamContent w"
proof -
  from assms have "\<forall>x\<in>set (messages w). \<not> ident x = mid" by (auto simp: hasElement_def)
  hence "update_first (\<lambda>m. ident m = mid)
           (\<lambda>m. m\<lparr> content := currentStreamContent w, sources := Some srcs,
                    intent := Some tag, streaming := False \<rparr>) (messages w) = messages w"
    by (rule update_first_none)
  thus ?thesis using assms by (simp add: handle_chunk handle_end)
qed

theorem unknown_id_changes_no_turn_witness:
  "\<not> hasElement demo_widget (str ''m9'') \<and>
   messages (handleWSMessage demo_widget (stream_chunk (str ''X'') (str ''m9'')) 2000)
     = messages demo_widget \<and>
   messages (handleWSMessage demo_widget (stream_end (str ''m9'') None [] (str ''faq'')) 2000)
     = messages demo_widget"
  using unknown_id_changes_no_turn [where w = demo_widget and mid = "str ''m9''"
      and c = "str ''X''" and t = 2000 and conv = None and srcs = "[]" and tag = "str ''faq''"]
  by (simp add: hasElement_def demo_widget_fields str_def)

lemma handle_error:
  "handleWSMessage w (error msg) now =
     w\<lparr> typing := False, isStreaming := False,
        messages := messages w @ [\<lparr> ident = toString now, role = Assistant, content = msg,
                     sources = None, intent = None, timestamp = now, streaming = False \<rparr>],
        view := view w @ [Bubble (toString now) Assistant msg False],
        sendBtn_disabled := False, textarea_disabled := False \<rparr>"
  by (simp add: handleWSMessage_def addMessage_def removeTypingIndicator_def Let_def)

lemma sendMessage_messages:
  assumes "trim (textarea_value w) \<noteq> []" "\<not> isStreaming w"
  shows "messages (sendMessage w now) =
     messages w @ [\<lparr> ident = toString now, role = User, content = trim (textarea_value w),
                     sources = None, intent = None, timestamp = now, streaming = False \<rparr>]"
  using assms
  by (simp add: sendMessage_def Let_def addMessage_def showTypingIndicator_def sendViaRest_def)

text \<open>
  Claim C3, as stated, fails. A submission answered by \<open>stream_start\<close> and then \<open>error\<close>
  leaves two assistant Turns: the placeholder, still accumulating and still empty, and a
  new Turn with the error text.
\<close>

theorem error_signal_counterexample:
  "map (\<lambda>m. (role m, content m, streaming m))
     (messages (wrun demo_widget
        [TypeText (str ''hi''), ClickSend 1500,
         Transport (Received 0 (Parsed (stream_start (str ''m1'')))) 2000,
         Transport (Received 0 (Parsed (error (str ''boom'')))) 2001]))
   = [(Assistant, defaultWelcome, False), (User, str ''hi'', False),
      (Assistant, [], True), (Assistant, str ''boom'', False)]"
  by (simp add: wrun_def wstep_def typeText_def clickSend_def sendMessage_def trim_def
        isWhiteSpace_def demo_widget_fields transport_def deliver_def handle_start handle_error
        addMessage_def showTypingIndicator_def str_def wsConnected_def demo_widget_def
        new_widget_def initSession_ok_def connectWS_def truthy_def orUndefined_def client_defs)

text \<open>
  Claim C3, amended. On an \<open>error\<close> signal the widget appends one new assistant Turn
  whose content is the error text and which is not accumulating, clears its
  \<open>isStreaming\<close> flag, removes the typing row and enables the input controls; the Turns
  already in the list stay as they are. A submission answered by \<open>error\<close> in place of
  \<open>stream_start\<close> hence yields the user Turn followed by exactly one assistant Turn.
\<close>

theorem error_signal_appends_turn:
  "messages (handleWSMessage w (error msg) now) =
     messages w @ [\<lparr> ident = toString now, role = Assistant, content = msg, sources = None,
                     intent = None, timestamp = now, streaming = False \<rparr>] \<and>
   view (handleWSMessage w (error msg) now) = view w @ [Bubble (toString now) Assistant msg False] \<and>
   \<not> isStreaming (handleWSMessage w (error msg) now) \<and>
   \<not> typing (handleWSMessage w (error msg) now) \<and>
   \<not> sendBtn_disabled (handleWSMessage w (error msg) now) \<and>
   \<not> textarea_disabled (handleWSMessage w (error msg) now) \<and>
   (trim (textarea_value v) \<noteq> [] \<and> \<not> isStreaming v \<longrightarrow>
      messages (handleWSMessage (sendMessage v t0) (error msg) now) =
        messages v @
          [\<lparr> ident = toString t0, role = User, content = trim (textarea_value v), sources = None,
              intent = None, timestamp = t0, streaming = False \<rparr>,
           \<lparr> ident = toString now, role = Assistant, content = msg, sources = None,
              intent = None, timestamp = now, streaming = False \<rparr>])"
  by (simp add: handle_error sendMessage_messages)

lemmas run_defs =
  wrun_def wstep_def typeText_def clickSend_def pressEnter_def sendMessage_def trim_def
  isWhiteSpace_def transport_def deliver_def addMessage_def showTypingIndicator_def
  removeTypingIndicator_def str_def wsConnected_def new_widget_def initSession_ok_def
  connectWS_def truthy_def orUndefined_def sendViaRest_def rest_reply_def rest_tick_def
  rest_finally_def rest_catch_def chunkSize_def hasElement_def destroy_def

lemma demo_revealing_fields:
  "rest demo_revealing = [Revealing (str ''m1'') (str ''Hello world'') 3 None None]"
  "map (\<lambda>m. (role m, content m, streaming m)) (messages demo_revealing)
     = [(Assistant, defaultWelcome, False), (User, str ''a'', False), (Assistant, [], True)]"
  "sendBtn_disabled demo_revealing" "textarea_disabled demo_revealing"
  "isStreaming demo_revealing = False"
  "map_option wire (ws_client demo_revealing) = Some []"
  "map req_content (requests demo_revealing) = [str ''a'']"
  by (simp_all add: demo_revealing_def demo_connecting_def demo_reply_def demo_data_def run_defs client_defs)

text \<open>
  Claim C7, as stated, fails on the fallback path. While the response to \<open>a\<close> is being
  revealed (the call is suspended in \<open>Revealing\<close>, the placeholder is accumulating), the
  socket opens and delivers an \<open>error\<close> signal, which enables the input controls; the
  submission of \<open>b\<close> is then accepted: a user Turn is appended and the message goes out
  on the socket, the reveal still being under way. A \<open>stream_start\<close> arriving during the
  reveal sets the flag of the live StreamSession next to the unfinished fallback call.
\<close>

theorem submit_during_fallback_counterexample:
  "rest demo_revealing = [Revealing (str ''m1'') (str ''Hello world'') 3 None None] \<and>
   sendBtn_disabled demo_revealing \<and>
   map (\<lambda>m. (role m, content m, streaming m)) (messages demo_revealing)
     = [(Assistant, defaultWelcome, False), (User, str ''a'', False), (Assistant, [], True)] \<and>
   rest (wrun demo_revealing
      [Transport (Opened 0) 1300, Transport (Received 0 (Parsed (error (str ''fail'')))) 1301,
       TypeText (str ''b''), ClickSend 1400])
     = [Revealing (str ''m1'') (str ''Hello world'') 3 None None] \<and>
   map (\<lambda>m. (role m, content m, streaming m)) (messages (wrun demo_revealing
      [Transport (Opened 0) 1300, Transport (Received 0 (Parsed (error (str ''fail'')))) 1301,
       TypeText (str ''b''), ClickSend 1400]))
     = [(Assistant, defaultWelcome, False), (User, str ''a'', False), (Assistant, [], True),
        (Assistant, str ''fail'', False), (User, str ''b'', False)] \<and>
   map_option wire (ws_client (wrun demo_revealing
      [Transport (Opened 0) 1300, Transport (Received 0 (Parsed (error (str ''fail'')))) 1301,
       TypeText (str ''b''), ClickSend 1400]))
     = Some [(0, Message (str ''b'') (Some (str ''c1'')))] \<and>
   isStreaming (wrun demo_revealing
      [Transport (Opened 0) 1300,
       Transport (Received 0 (Parsed (stream_start (str ''m2'')))) 1301]) \<and>
   rest (wrun demo_revealing
      [Transport (Opened 0) 1300,
       Transport (Received 0 (Parsed (stream_start (str ''m2'')))) 1301])
     = [Revealing (str ''m1'') (str ''Hello world'') 3 None None]"
  by (simp add: demo_revealing_def demo_connecting_def demo_reply_def demo_data_def run_defs client_defs
        handleWSMessage_def)

lemma rest_reply_json_flags:
  "sendBtn_disabled (rest_reply k (Response st (Json d)) now x) = sendBtn_disabled x"
  "textarea_disabled (rest_reply k (Response st (Json d)) now x) = textarea_disabled x"
  by (simp_all add: rest_reply_def Let_def addMessage_def removeTypingIndicator_def
        split: option.splits)

lemma rest_isStreaming:
  "isStreaming (rest_reply k rp now x) = isStreaming x"
  "isStreaming (rest_tick k r x) = isStreaming x"
  by (simp_all add: rest_reply_def rest_tick_def rest_catch_def rest_finally_def Let_def
        addMessage_def removeTypingIndicator_def
        split: option.splits reply.splits body.splits restcall.splits)


lemma sendMessage_busy: "isStreaming w \<Longrightarrow> sendMessage w now = w"
  by (simp add: sendMessage_def Let_def)

lemma sendMessage_disables:
  assumes "trim (textarea_value u) \<noteq> []" "\<not> isStreaming u"
  shows "sendBtn_disabled (sendMessage u now)" "textarea_disabled (sendMessage u now)"
    "\<not> isStreaming (sendMessage u now)"
  using assms
  by (simp_all add: sendMessage_def Let_def addMessage_def showTypingIndicator_def sendViaRest_def)



lemma ticks_Nil: "ticks k [] w = w"
  by (simp add: ticks_def)

lemma ticks_Cons: "ticks k (r # rs) w = ticks k rs (rest_tick k r w)"
  by (simp add: ticks_def)


lemma rest_tick_final:
  assumes "k < length (rest x)" "rest x ! k = Revealing m full i s g" "length full \<le> i + chunkSize r"
  shows "rest_tick k r x =
     x\<lparr> view := view x @ [SetHtml m full],
        messages := update_first (\<lambda>a. ident a = m)
                      (\<lambda>a. a\<lparr> content := full, sources := s, intent := g, streaming := False \<rparr>)
                      (messages x),
        sendBtn_disabled := False, textarea_disabled := False,
        rest := (rest x)[k := Settled] \<rparr>"
  using assms by (simp add: rest_tick_def rest_finally_def Let_def)






lemma demo_fetching_fields:
  "rest demo_fetching = [Fetching]"
  "messages demo_fetching =
     [\<lparr> ident = str ''welcome'', role = Assistant, content = defaultWelcome, sources = None,
        intent = None, timestamp = 1000, streaming = False \<rparr>,
      \<lparr> ident = toString 1100, role = User, content = str ''a'', sources = None,
        intent = None, timestamp = 1100, streaming = False \<rparr>]"
  "sendBtn_disabled demo_fetching" "textarea_disabled demo_fetching"
  "map req_content (requests demo_fetching) = [str ''a'']"
  "uncaught demo_fetching = 0"
  by (simp_all add: demo_fetching_def demo_connecting_def run_defs client_defs)




lemma ticks_faulted:
  "k < length (rest w) \<Longrightarrow> rest w ! k = Faulted \<Longrightarrow>
     ticks k rs w = w\<lparr>uncaught := uncaught w + length rs\<rparr>"
proof (induction rs arbitrary: w)
  case Nil
  then show ?case by (simp add: ticks_Nil)
next
  case (Cons r rs)
  have t: "rest_tick k r w = w\<lparr>uncaught := uncaught w + 1\<rparr>"
    using Cons.prems by (simp add: rest_tick_def)
  have "ticks k rs (rest_tick k r w) = (rest_tick k r w)\<lparr>uncaught := uncaught (rest_tick k r w) + length rs\<rparr>"
    by (rule Cons.IH) (simp_all add: t Cons.prems)
  thus ?case by (simp add: ticks_Cons t)
qed





text \<open>
  Claim C9 at a non-success response. The server answers the fallback request with status
  500 and a JSON body that has no \<open>content\<close>: the widget takes it for a success, stores an
  undefined conversation identifier and appends an empty accumulating Turn; each tick of
  the reveal throws, no Turn with the apology appears, and the input controls stay
  disabled.
\<close>

theorem fallback_http_error_hangs:
  "map (\<lambda>m. (role m, content m, streaming m))
     (messages (fallback_path demo_fetching 0 500 demo_error_body 1200 [1/2, 1/2]))
     = [(Assistant, defaultWelcome, False), (User, str ''a'', False), (Assistant, [], True)] \<and>
   rest (fallback_path demo_fetching 0 500 demo_error_body 1200 [1/2, 1/2]) = [Faulted] \<and>
   uncaught (fallback_path demo_fetching 0 500 demo_error_body 1200 [1/2, 1/2]) = 2 \<and>
   sendBtn_disabled (fallback_path demo_fetching 0 500 demo_error_body 1200 [1/2, 1/2]) \<and>
   textarea_disabled (fallback_path demo_fetching 0 500 demo_error_body 1200 [1/2, 1/2]) \<and>
   conversationId (fallback_path demo_fetching 0 500 demo_error_body 1200 [1/2, 1/2]) = None"
  by (simp add: fallback_path_def ticks_def demo_error_body_def demo_fetching_def
        demo_connecting_def run_defs client_defs)

lemma fallback_failure_caught:
  assumes "k < length (rest w)" "rest w ! k = Fetching"
    and "rp = NetworkError \<or> rp = Response st NotJson"
  shows "rest_reply k rp now w =
     w\<lparr> typing := False,
        messages := messages w @ [\<lparr> ident = toString now, role = Assistant, content = apology,
                     sources = None, intent = None, timestamp = now, streaming = False \<rparr>],
        view := view w @ [Bubble (toString now) Assistant apology False],
        sendBtn_disabled := False, textarea_disabled := False,
        rest := (rest w)[k := Settled] \<rparr>"
  using assms
  by (auto simp: rest_reply_def rest_catch_def rest_finally_def addMessage_def
        removeTypingIndicator_def)

theorem error_signal_appends_turn_witness:
  "trim (textarea_value (typeText (str ''hi'') demo_widget)) \<noteq> [] \<and>
   \<not> isStreaming (typeText (str ''hi'') demo_widget) \<and>
   map (\<lambda>m. (role m, content m))
     (messages (handleWSMessage (sendMessage (typeText (str ''hi'') demo_widget) 1500)
        (error (str ''boom'')) 1600))
   = [(Assistant, defaultWelcome), (User, str ''hi''), (Assistant, str ''boom'')] \<and>
   map (\<lambda>m. (role m, content m, streaming m))
     (messages (handleWSMessage demo_streaming (error (str ''boom'')) 1600))
   = [(Assistant, defaultWelcome, False), (Assistant, [], True), (Assistant, str ''boom'', False)]"
proof -
  have u: "trim (textarea_value (typeText (str ''hi'') demo_widget)) = str ''hi''"
    "\<not> isStreaming (typeText (str ''hi'') demo_widget)"
    "messages (typeText (str ''hi'') demo_widget) = messages demo_widget"
    by (simp_all add: typeText_def demo_widget_fields trim_def isWhiteSpace_def str_def)
  have n: "str ''hi'' \<noteq> []" by (simp add: str_def)
  have s: "messages demo_streaming = messages demo_widget @ [placeholder (str ''m1'') 2000]"
    by (simp add: demo_streaming_def feed_Cons feed_Nil handle_start placeholder_def)
  show ?thesis
    using u n s error_signal_appends_turn [where v = "typeText (str ''hi'') demo_widget"
        and w = demo_streaming and ?t0.0 = 1500 and msg = "str ''boom''" and now = 1600]
    by (simp add: demo_widget_fields placeholder_def)
qed

lemma fire_calls:
  "calls (fire c e) = calls c @
     (case e of
        Opened k \<Rightarrow> if readyStateOf c k = CONNECTING then [OnOpen] else []
      | Received k f \<Rightarrow>
          (case f of Malformed \<Rightarrow> []
           | Parsed d \<Rightarrow> if readyStateOf c k = OPEN then [OnMessage d] else [])
      | Closed k \<Rightarrow> if readyStateOf c k \<noteq> CLOSED then [OnClose] else []
      | _ \<Rightarrow> [])"
  by (cases e) (simp_all add: client_defs split: option.splits frame.splits)

lemma fire_wire:
  "filter (\<lambda>f. is_message (snd f)) (wire (fire c e)) = filter (\<lambda>f. is_message (snd f)) (wire c)"
  by (cases e) (simp_all add: client_defs split: option.splits frame.splits)

lemma transport_unfold:
  "ws_client w = Some c \<Longrightarrow>
     transport e now w =
       foldl (deliver now) (w\<lparr>ws_client := Some (fire c e)\<rparr>)
         (case e of
            Opened k \<Rightarrow> if readyStateOf c k = CONNECTING then [OnOpen] else []
          | Received k f \<Rightarrow>
              (case f of Malformed \<Rightarrow> []
               | Parsed d \<Rightarrow> if readyStateOf c k = OPEN then [OnMessage d] else [])
          | Closed k \<Rightarrow> if readyStateOf c k \<noteq> CLOSED then [OnClose] else []
          | _ \<Rightarrow> [])"
  by (simp add: transport_def Let_def fire_calls)

lemma transport_result:
  "transport e now w = w \<or>
   (\<exists>c. ws_client w = Some c \<and>
      (transport e now w = w\<lparr>ws_client := Some (fire c e)\<rparr> \<or>
       transport e now w = w\<lparr>ws_client := Some (fire c e), statusText := textOnline\<rparr> \<or>
       transport e now w = w\<lparr>ws_client := Some (fire c e), statusText := textConnecting\<rparr> \<or>
       (\<exists>d. signal_of (Transport e now) = Some d \<and>
          transport e now w = handleWSMessage (w\<lparr>ws_client := Some (fire c e)\<rparr>) d now)))"
proof (cases "ws_client w")
  case None
  then show ?thesis by (simp add: transport_def)
next
  case (Some c)
  show ?thesis
    using Some
    by (cases e) (auto simp: transport_unfold deliver_def signal_of_def split: frame.splits)
qed

lemma ident_user_update_first:
  assumes "\<And>x. ident (f x) = ident x" "\<And>x. role (f x) = role x"
  shows "map ident (filter (\<lambda>m. role m = User) (update_first p f xs))
         = map ident (filter (\<lambda>m. role m = User) xs)"
  by (induction xs) (simp_all add: assms)

lemma handle_system:
  "handleWSMessage w (system c ev) now =
     w\<lparr> typing := False,
        messages := messages w @ [\<lparr> ident = toString now, role = System, content = c,
                     sources = None, intent = None, timestamp = now, streaming = False \<rparr>],
        view := view w @ [Bubble (toString now) System c False] \<rparr>"
  by (simp add: handleWSMessage_def addMessage_def removeTypingIndicator_def)

lemmas handle_all = handle_start handle_chunk handle_end handle_error handle_system

lemma handle_frame:
  "requests (handleWSMessage w d now) = requests w"
  "ws_client (handleWSMessage w d now) = ws_client w"
  "rest (handleWSMessage w d now) = rest w"
  "map ident (user_turns (handleWSMessage w d now)) = map ident (user_turns w)"
  by (cases d; simp add: handle_all user_turns_def ident_user_update_first)+

lemma handle_quiet:
  assumes "\<not> ends_stream (Transport (Received k (Parsed d)) t)"
  shows "sendBtn_disabled (handleWSMessage w d now) = sendBtn_disabled w"
    "textarea_disabled (handleWSMessage w d now) = textarea_disabled w"
    "user_turns (handleWSMessage w d now) = user_turns w"
    "isStreaming w \<Longrightarrow> isStreaming (handleWSMessage w d now)"
  using assms
  by (cases d; simp add: handle_all user_turns_def ends_stream_def signal_of_def)+

lemma rest_frame:
  "requests (rest_reply k rp now w) = requests w"
  "ws_client (rest_reply k rp now w) = ws_client w"
  "map ident (user_turns (rest_reply k rp now w)) = map ident (user_turns w)"
  "requests (rest_tick k r w) = requests w"
  "ws_client (rest_tick k r w) = ws_client w"
  "map ident (user_turns (rest_tick k r w)) = map ident (user_turns w)"
  by (simp_all add: rest_reply_def rest_tick_def rest_catch_def rest_finally_def Let_def
        addMessage_def removeTypingIndicator_def user_turns_def ident_user_update_first
        split: option.splits reply.splits body.splits restcall.splits)

lemma rest_reply_json_turns:
  "user_turns (rest_reply k (Response st (Json d)) now w) = user_turns w"
  by (simp add: rest_reply_def Let_def addMessage_def removeTypingIndicator_def user_turns_def
        split: option.splits)

lemma rest_tick_quiet:
  assumes "\<not> finishes w (RestTick k r)"
  shows "sendBtn_disabled (rest_tick k r w) = sendBtn_disabled w"
    "textarea_disabled (rest_tick k r w) = textarea_disabled w"
    "messages (rest_tick k r w) = messages w"
  using assms
  by (auto simp: rest_tick_def finishes_def Let_def split: restcall.splits)

lemma message_frames_fire:
  "ws_client w = Some c \<Longrightarrow> ws_client w' = Some (fire c e) \<Longrightarrow>
     message_frames w' = message_frames w"
  by (simp add: message_frames_def fire_wire)

lemma user_turns_upd:
  "user_turns (w\<lparr>ws_client := x\<rparr>) = user_turns w"
  "user_turns (w\<lparr>ws_client := x, statusText := y\<rparr>) = user_turns w"
  by (simp_all add: user_turns_def)

lemma transport_frame:
  "requests (transport e now w) = requests w"
  "map ident (user_turns (transport e now w)) = map ident (user_turns w)"
  "message_frames (transport e now w) = message_frames w"
  using transport_result[of e now w]
  by (auto simp: handle_frame user_turns_upd message_frames_def fire_wire)

lemma session_frame:
  "requests (initSession_ok vid wm now w) = requests w"
  "map ident (user_turns (initSession_ok vid wm now w)) = map ident (user_turns w)"
  "user_turns (initSession_ok vid wm now w) = user_turns w"
  "message_frames (initSession_ok vid wm now w) = []"
  "sendBtn_disabled (initSession_ok vid wm now w) = sendBtn_disabled w"
  "textarea_disabled (initSession_ok vid wm now w) = textarea_disabled w"
  "isStreaming (initSession_ok vid wm now w) = isStreaming w"
  "rest (initSession_ok vid wm now w) = rest w"
  by (simp_all add: initSession_ok_def connectWS_def addMessage_def Let_def user_turns_def
        message_frames_def connect_def new_client_def)

lemma destroy_frame:
  "message_frames (destroy w) = message_frames w"
  by (cases "ws_client w") (simp_all add: destroy_def message_frames_def disconnect_fields)

lemma step_frame:
  assumes "sendBtn_disabled w \<and> textarea_disabled w \<or> isStreaming w"
  shows "map ident (user_turns (wstep w e)) = map ident (user_turns w) \<and>
     requests (wstep w e) = requests w \<and>
     set (message_frames (wstep w e)) \<subseteq> set (message_frames w)"
proof (cases e)
  case (SessionReady vid wm now)
  then show ?thesis by (simp add: wstep_def session_frame)
next
  case (TypeText t)
  then show ?thesis by (simp add: wstep_def typeText_def user_turns_def message_frames_def)
next
  case (ClickSend now)
  have "clickSend now w = w" using assms by (auto simp: clickSend_def sendMessage_busy)
  with ClickSend show ?thesis by (simp add: wstep_def)
next
  case (PressEnter now)
  have "pressEnter now w = w" using assms by (auto simp: pressEnter_def sendMessage_busy)
  with PressEnter show ?thesis by (simp add: wstep_def)
next
  case (Transport ev now)
  then show ?thesis by (simp add: wstep_def transport_frame)
next
  case (RestReply k rp now)
  then show ?thesis by (simp add: wstep_def rest_frame message_frames_def)
next
  case (RestTick k r)
  then show ?thesis by (simp add: wstep_def rest_frame message_frames_def)
next
  case Destroy
  then show ?thesis by (simp add: wstep_def destroy_frame) (simp add: destroy_def user_turns_def)
qed

lemma step_streaming:
  assumes "isStreaming w" "\<not> ends_stream e"
  shows "isStreaming (wstep w e)"
proof (cases e)
  case (SessionReady vid wm now)
  with assms show ?thesis by (simp add: wstep_def session_frame)
next
  case (TypeText t)
  with assms show ?thesis by (simp add: wstep_def typeText_def)
next
  case (ClickSend now)
  with assms show ?thesis by (simp add: wstep_def clickSend_def sendMessage_busy)
next
  case (PressEnter now)
  with assms show ?thesis by (simp add: wstep_def pressEnter_def sendMessage_busy)
next
  case (Transport ev now)
  have "isStreaming (transport ev now w)"
    using transport_result[of ev now w] assms Transport
  proof (elim disjE exE conjE)
    fix c d
    assume d: "signal_of (Transport ev now) = Some d"
      and t: "transport ev now w = handleWSMessage (w\<lparr>ws_client := Some (fire c ev)\<rparr>) d now"
    from d obtain k where ev: "ev = Received k (Parsed d)"
      by (auto simp: signal_of_def split: event.splits frame.splits)
    with assms(2) Transport have "\<not> ends_stream (Transport (Received k (Parsed d)) now)" by simp
    from handle_quiet(4)[OF this, of "w\<lparr>ws_client := Some (fire c ev)\<rparr>" now] assms(1) t
    show ?thesis by simp
  qed simp_all
  with Transport show ?thesis by (simp add: wstep_def)
next
  case (RestReply k rp now)
  with assms show ?thesis by (simp add: wstep_def rest_isStreaming)
next
  case (RestTick k r)
  with assms show ?thesis by (simp add: wstep_def rest_isStreaming)
next
  case Destroy
  with assms show ?thesis by (simp add: wstep_def destroy_def)
qed

lemma step_busy:
  assumes "sendBtn_disabled w" "textarea_disabled w" "\<not> releases w e"
  shows "sendBtn_disabled (wstep w e) \<and> textarea_disabled (wstep w e) \<and>
     user_turns (wstep w e) = user_turns w"
proof (cases e)
  case (SessionReady vid wm now)
  with assms show ?thesis by (simp add: wstep_def session_frame)
next
  case (TypeText t)
  with assms show ?thesis by (simp add: wstep_def typeText_def)
next
  case (ClickSend now)
  with assms show ?thesis by (simp add: wstep_def clickSend_def)
next
  case (PressEnter now)
  with assms show ?thesis by (simp add: wstep_def pressEnter_def)
next
  case (Transport ev now)
  have "sendBtn_disabled (transport ev now w) \<and> textarea_disabled (transport ev now w) \<and>
     user_turns (transport ev now w) = user_turns w"
    using transport_result[of ev now w] assms Transport
  proof (elim disjE exE conjE)
    fix c d
    assume d: "signal_of (Transport ev now) = Some d"
      and t: "transport ev now w = handleWSMessage (w\<lparr>ws_client := Some (fire c ev)\<rparr>) d now"
    from d obtain k where ev: "ev = Received k (Parsed d)"
      by (auto simp: signal_of_def split: event.splits frame.splits)
    with assms(3) Transport have q: "\<not> ends_stream (Transport (Received k (Parsed d)) now)"
      by (simp add: releases_def)
    from handle_quiet(1,2,3)[OF q, of "w\<lparr>ws_client := Some (fire c ev)\<rparr>" now] assms(1,2) t
    show ?thesis by (simp add: user_turns_def)
  qed (simp_all add: user_turns_def)
  with Transport show ?thesis by (simp add: wstep_def)
next
  case (RestReply k rp now)
  from assms(3) RestReply obtain st d where "rp = Response st (Json d)"
    by (auto simp: releases_def finishes_def split: reply.splits body.splits)
  with assms RestReply show ?thesis
    by (simp add: wstep_def rest_reply_json_flags rest_reply_json_turns)
next
  case (RestTick k r)
  with assms(3) have "\<not> finishes w (RestTick k r)" by (simp add: releases_def)
  from rest_tick_quiet[OF this] assms(1,2) RestTick show ?thesis
    by (simp add: wstep_def user_turns_def)
next
  case Destroy
  with assms show ?thesis by (simp add: wstep_def destroy_def user_turns_def)
qed

lemma count_update:
  "k < length xs \<Longrightarrow>
     length (filter P (xs[k := v])) + (if P (xs ! k) then 1 else 0)
       = length (filter P xs) + (if P v then 1 else 0)"
proof (induction xs arbitrary: k)
  case Nil
  then show ?case by simp
next
  case (Cons x xs)
  show ?case
  proof (cases k)
    case 0
    then show ?thesis by simp
  next
    case (Suc j)
    with Cons.prems have "j < length xs" by simp
    from Cons.IH[OF this] Suc show ?thesis by simp
  qed
qed

lemma inflight_settle:
  assumes "k < length (rest w)" "rest w ! k \<noteq> Settled" "rest w' = (rest w)[k := Settled]"
  shows "inflight w' + 1 = inflight w"
  using count_update[OF assms(1), of "\<lambda>c. c \<noteq> Settled" Settled] assms(2,3)
  by (simp add: inflight_def)

lemma inflight_keep:
  assumes "k < length (rest w)" "rest w ! k \<noteq> Settled" "v \<noteq> Settled"
    "rest w' = (rest w)[k := v]"
  shows "inflight w' = inflight w"
  using count_update[OF assms(1), of "\<lambda>c. c \<noteq> Settled" v] assms(2,3,4)
  by (simp add: inflight_def)

lemma orderly_same: "orderly w \<Longrightarrow> same_gate w w' \<Longrightarrow> orderly w'"
  by (auto simp: orderly_def same_gate_def sessions_def)

lemma orderly_settled: "orderly w \<Longrightarrow> settled_from w w' \<Longrightarrow> orderly w'"
  by (auto simp: orderly_def settled_from_def sessions_def split: if_splits)

lemma rest_reply_effect:
  "same_gate w (rest_reply k rp now w) \<or> settled_from w (rest_reply k rp now w)"
proof (cases "k < length (rest w) \<and> rest w ! k = Fetching")
  case False
  then have "rest_reply k rp now w = w" by (auto simp: rest_reply_def)
  then show ?thesis by (simp add: same_gate_def)
next
  case True
  hence k: "k < length (rest w)" "rest w ! k \<noteq> Settled" by simp_all
  show ?thesis
  proof (cases "\<exists>st d. rp = Response st (Json d)")
    case True
    then obtain st d where rp: "rp = Response st (Json d)" by blast
    obtain v where v: "v \<noteq> Settled" "rest (rest_reply k rp now w) = (rest w)[k := v]"
      using \<open>k < length (rest w) \<and> rest w ! k = Fetching\<close> rp
      by (cases "data_content d")
         (auto simp: rest_reply_def Let_def addMessage_def removeTypingIndicator_def)
    have "inflight (rest_reply k rp now w) = inflight w"
      using k v by (rule inflight_keep)
    then show ?thesis
      using rp by (simp add: same_gate_def rest_reply_json_flags rest_isStreaming)
  next
    case False
    hence c: "rest_reply k rp now w = rest_catch k now w"
      using \<open>k < length (rest w) \<and> rest w ! k = Fetching\<close>
      by (auto simp: rest_reply_def split: reply.splits body.splits)
    have "rest (rest_catch k now w) = (rest w)[k := Settled]"
      by (simp add: rest_catch_def rest_finally_def addMessage_def removeTypingIndicator_def)
    with k have "inflight (rest_catch k now w) + 1 = inflight w" by (rule inflight_settle)
    then show ?thesis
      by (simp add: settled_from_def c)
         (simp add: rest_catch_def rest_finally_def addMessage_def removeTypingIndicator_def)
  qed
qed

lemma rest_tick_effect:
  "same_gate w (rest_tick k r w) \<or> settled_from w (rest_tick k r w)"
proof (cases "finishes w (RestTick k r)")
  case False
  have "rest (rest_tick k r w) = rest w \<or>
        (\<exists>v. k < length (rest w) \<and> rest w ! k \<noteq> Settled \<and> v \<noteq> Settled \<and>
             rest (rest_tick k r w) = (rest w)[k := v])"
    using False by (auto simp: rest_tick_def finishes_def Let_def split: restcall.splits)
  hence "inflight (rest_tick k r w) = inflight w"
    by (auto simp: inflight_def intro: inflight_keep[unfolded inflight_def])
  then show ?thesis
    using rest_tick_quiet[OF False] by (simp add: same_gate_def rest_isStreaming)
next
  case True
  then obtain m full i s g where k: "k < length (rest w)" "rest w ! k = Revealing m full i s g"
      "length full \<le> i + chunkSize r"
    by (auto simp: finishes_def split: restcall.splits)
  note f = rest_tick_final[OF k]
  have "rest (rest_tick k r w) = (rest w)[k := Settled]" by (simp add: f)
  hence "inflight (rest_tick k r w) + 1 = inflight w"
    using k by (intro inflight_settle[of k w]) simp_all
  then show ?thesis by (simp add: settled_from_def rest_isStreaming) (simp add: f)
qed

lemma handle_orderly:
  assumes "orderly w" "inflight w = 0 \<or> \<not> stream_signal (Transport (Received k (Parsed d)) t)"
  shows "orderly (handleWSMessage w d now)"
  using assms
  by (cases d)
     (auto simp: handle_all orderly_def sessions_def inflight_def stream_signal_def signal_of_def)

lemma sendMessage_orderly:
  assumes "orderly w" "\<not> sendBtn_disabled w"
  shows "orderly (sendMessage w now)"
proof -
  from assms have z: "inflight w = 0" "\<not> textarea_disabled w" by (auto simp: orderly_def)
  show ?thesis
  proof (cases "trim (textarea_value w) = [] \<or> isStreaming w")
    case True
    then have "sendMessage w now = w" by (auto simp: sendMessage_def Let_def)
    with assms show ?thesis by simp
  next
    case False
    then show ?thesis using assms z
      by (auto simp: sendMessage_def Let_def addMessage_def showTypingIndicator_def
            sendViaRest_def orderly_def sessions_def inflight_def)
  qed
qed

lemma orderly_upd:
  "orderly (w\<lparr>ws_client := x\<rparr>) = orderly w"
  "orderly (w\<lparr>ws_client := x, statusText := y\<rparr>) = orderly w"
  "inflight (w\<lparr>ws_client := x\<rparr>) = inflight w"
  by (simp_all add: orderly_def sessions_def inflight_def)

lemma orderly_step:
  assumes "orderly w" "calm w e"
  shows "orderly (wstep w e)"
proof (cases e)
  case (SessionReady vid wm now)
  with assms show ?thesis
    by (auto simp: wstep_def orderly_def sessions_def inflight_def session_frame)
next
  case (TypeText t)
  with assms show ?thesis
    by (auto simp: wstep_def typeText_def orderly_def sessions_def inflight_def)
next
  case (ClickSend now)
  with assms show ?thesis by (simp add: wstep_def clickSend_def sendMessage_orderly)
next
  case (PressEnter now)
  from assms(1) have "textarea_disabled w \<or> \<not> sendBtn_disabled w" by (auto simp: orderly_def)
  with PressEnter assms show ?thesis by (auto simp: wstep_def pressEnter_def sendMessage_orderly)
next
  case (Transport ev now)
  have "orderly (transport ev now w)"
    using transport_result[of ev now w]
  proof (elim disjE exE conjE)
    fix c d
    assume d: "signal_of (Transport ev now) = Some d"
      and t: "transport ev now w = handleWSMessage (w\<lparr>ws_client := Some (fire c ev)\<rparr>) d now"
    from d obtain k where ev: "ev = Received k (Parsed d)"
      by (auto simp: signal_of_def split: event.splits frame.splits)
    with assms(2) Transport
    have "inflight w = 0 \<or> \<not> stream_signal (Transport (Received k (Parsed d)) now)"
      by (simp add: calm_def)
    hence "orderly (handleWSMessage (w\<lparr>ws_client := Some (fire c ev)\<rparr>) d now)"
      using assms(1) by (intro handle_orderly) (simp_all add: orderly_upd)
    with t show ?thesis by simp
  qed (simp_all add: assms(1) orderly_upd)
  with Transport show ?thesis by (simp add: wstep_def)
next
  case (RestReply k rp now)
  with assms(1) rest_reply_effect[of w k rp now] show ?thesis
    by (auto simp: wstep_def intro: orderly_same orderly_settled)
next
  case (RestTick k r)
  with assms(1) rest_tick_effect[of w k r] show ?thesis
    by (auto simp: wstep_def intro: orderly_same orderly_settled)
next
  case Destroy
  with assms show ?thesis
    by (auto simp: wstep_def destroy_def orderly_def sessions_def inflight_def)
qed

lemma wrun_Nil: "wrun w [] = w"
  by (simp add: wrun_def)

lemma wrun_Cons: "wrun w (e # es) = wrun (wstep w e) es"
  by (simp add: wrun_def)

lemma run_orderly: "orderly w \<Longrightarrow> steady calm w es \<Longrightarrow> orderly (wrun w es)"
  by (induction es arbitrary: w) (simp_all add: wrun_Nil wrun_Cons orderly_step)

lemma run_frame_streaming:
  "isStreaming w \<Longrightarrow> steady no_end w es \<Longrightarrow>
     isStreaming (wrun w es) \<and>
     map ident (user_turns (wrun w es)) = map ident (user_turns w) \<and>
     requests (wrun w es) = requests w \<and>
     set (message_frames (wrun w es)) \<subseteq> set (message_frames w)"
proof (induction es arbitrary: w)
  case Nil
  then show ?case by (simp add: wrun_Nil)
next
  case (Cons e es)
  from Cons.prems have "no_end w e" and r: "steady no_end (wstep w e) es"
    by simp_all
  hence e: "\<not> ends_stream e" by (simp add: no_end_def)
  from step_streaming[OF Cons.prems(1) e] have s: "isStreaming (wstep w e)" .
  from step_frame[of w e] Cons.prems(1)
  have f: "map ident (user_turns (wstep w e)) = map ident (user_turns w)"
    "requests (wstep w e) = requests w"
    "set (message_frames (wstep w e)) \<subseteq> set (message_frames w)" by simp_all
  from Cons.IH[OF s r] f show ?case by (auto simp: wrun_Cons)
qed

lemma run_frame_busy:
  "sendBtn_disabled w \<Longrightarrow> textarea_disabled w \<Longrightarrow> steady no_release w es \<Longrightarrow>
     sendBtn_disabled (wrun w es) \<and> textarea_disabled (wrun w es) \<and>
     user_turns (wrun w es) = user_turns w \<and>
     requests (wrun w es) = requests w \<and>
     set (message_frames (wrun w es)) \<subseteq> set (message_frames w)"
proof (induction es arbitrary: w)
  case Nil
  then show ?case by (simp add: wrun_Nil)
next
  case (Cons e es)
  from Cons.prems have "no_release w e" and r: "steady no_release (wstep w e) es"
    by simp_all
  hence e: "\<not> releases w e" by (simp add: no_release_def)
  from step_busy[OF Cons.prems(1,2) e]
  have b: "sendBtn_disabled (wstep w e)" "textarea_disabled (wstep w e)"
    "user_turns (wstep w e) = user_turns w" by simp_all
  from step_frame[of w e] Cons.prems(1,2)
  have f: "requests (wstep w e) = requests w"
    "set (message_frames (wstep w e)) \<subseteq> set (message_frames w)" by simp_all
  from Cons.IH[OF b(1,2) r] b f show ?case by (auto simp: wrun_Cons)
qed

lemma orderly_new: "orderly (new_widget api sg wm)"
  by (simp add: orderly_def sessions_def inflight_def new_widget_def)

text \<open>
  Claim C7, amended. While the \<open>isStreaming\<close> flag is set, \<open>sendMessage\<close> returns the state
  unchanged, and through every run of events in which no \<open>stream_end\<close> or \<open>error\<close> signal
  is received the flag stays set and no submission is accepted: the user Turns stay the
  same Turns, no request is issued and no message frame goes out. Every accepted
  submission disables the send button and the textarea, and through every run of events
  other than a received \<open>stream_end\<close> or \<open>error\<close> signal, a failed fallback response and
  the last tick of a reveal, both stay disabled and no submission is accepted: the user
  Turns are unchanged, no request is issued and no message frame goes out. In every state
  a new widget reaches by a run in which no stream signal arrives while a fallback call is
  unfinished, at most one session is active, the live StreamSession or one unfinished
  fallback call, and the input controls are disabled while a fallback call is unfinished.
\<close>

theorem busy_submit_rejected:
  "(isStreaming w \<longrightarrow>
      sendMessage w now = w \<and> clickSend now w = w \<and> pressEnter now w = w) \<and>
   (isStreaming w \<and> steady no_end w es \<longrightarrow>
      isStreaming (wrun w es) \<and>
      map ident (user_turns (wrun w es)) = map ident (user_turns w) \<and>
      requests (wrun w es) = requests w \<and>
      set (message_frames (wrun w es)) \<subseteq> set (message_frames w)) \<and>
   (trim (textarea_value u) \<noteq> [] \<and> \<not> isStreaming u \<longrightarrow>
      sendBtn_disabled (sendMessage u now) \<and> textarea_disabled (sendMessage u now) \<and>
      \<not> isStreaming (sendMessage u now)) \<and>
   (sendBtn_disabled v \<and> textarea_disabled v \<and> steady no_release v fs \<longrightarrow>
      sendBtn_disabled (wrun v fs) \<and> textarea_disabled (wrun v fs) \<and>
      user_turns (wrun v fs) = user_turns v \<and>
      requests (wrun v fs) = requests v \<and>
      set (message_frames (wrun v fs)) \<subseteq> set (message_frames v)) \<and>
   (steady calm (new_widget api sg wm) gs \<longrightarrow>
      sessions (wrun (new_widget api sg wm) gs) \<le> 1 \<and>
      (inflight (wrun (new_widget api sg wm) gs) = 0 \<or>
       sendBtn_disabled (wrun (new_widget api sg wm) gs) \<and>
       textarea_disabled (wrun (new_widget api sg wm) gs)))"
proof -
  have a: "isStreaming w \<longrightarrow>
      sendMessage w now = w \<and> clickSend now w = w \<and> pressEnter now w = w"
    by (simp add: sendMessage_busy clickSend_def pressEnter_def)
  have c: "trim (textarea_value u) \<noteq> [] \<and> \<not> isStreaming u \<longrightarrow>
      sendBtn_disabled (sendMessage u now) \<and> textarea_disabled (sendMessage u now) \<and>
      \<not> isStreaming (sendMessage u now)"
    by (simp add: sendMessage_disables)
  have d: "sessions (wrun (new_widget api sg wm) gs) \<le> 1 \<and>
      (inflight (wrun (new_widget api sg wm) gs) = 0 \<or>
       sendBtn_disabled (wrun (new_widget api sg wm) gs) \<and>
       textarea_disabled (wrun (new_widget api sg wm) gs))"
    if "steady calm (new_widget api sg wm) gs"
    using run_orderly[OF orderly_new that] by (auto simp: orderly_def)
  show ?thesis
    using a c d run_frame_streaming[of w es] run_frame_busy[of v fs] by blast
qed

theorem busy_submit_rejected_witness:
  "isStreaming demo_streaming \<and> sendMessage demo_streaming 2100 = demo_streaming \<and>
   steady no_end demo_streaming demo_run_live \<and>
   isStreaming (wrun demo_streaming demo_run_live) \<and>
   requests (wrun demo_streaming demo_run_live) = requests demo_streaming \<and>
   trim (textarea_value (typeText (str ''hi'') demo_widget)) \<noteq> [] \<and>
   \<not> isStreaming (typeText (str ''hi'') demo_widget) \<and>
   sendBtn_disabled (sendMessage (typeText (str ''hi'') demo_widget) 1500) \<and>
   sendBtn_disabled demo_fetching \<and> textarea_disabled demo_fetching \<and>
   steady no_release demo_fetching demo_run_fallback \<and>
   sendBtn_disabled (wrun demo_fetching demo_run_fallback) \<and>
   textarea_disabled (wrun demo_fetching demo_run_fallback) \<and>
   user_turns (wrun demo_fetching demo_run_fallback) = user_turns demo_fetching \<and>
   requests (wrun demo_fetching demo_run_fallback) = requests demo_fetching \<and>
   steady calm (new_widget (str ''https://api.example'') None None) demo_run_fresh \<and>
   sessions (wrun (new_widget (str ''https://api.example'') None None) demo_run_fresh) \<le> 1"
proof -
  have a: "isStreaming demo_streaming"
    by (simp add: demo_streaming_def feed_Cons feed_Nil handle_start)
  have sa: "steady no_end demo_streaming demo_run_live"
    by (simp add: demo_run_live_def no_end_def ends_stream_def signal_of_def)
  have u: "trim (textarea_value (typeText (str ''hi'') demo_widget)) \<noteq> []"
    "\<not> isStreaming (typeText (str ''hi'') demo_widget)"
    by (simp_all add: typeText_def demo_widget_fields trim_def isWhiteSpace_def str_def)
  have b: "sendBtn_disabled demo_fetching" "textarea_disabled demo_fetching"
    by (simp_all add: demo_fetching_fields)
  have sb: "steady no_release demo_fetching demo_run_fallback"
    by (simp add: demo_run_fallback_def no_release_def releases_def ends_stream_def
          signal_of_def finishes_def demo_fetching_def demo_connecting_def demo_reply_def
          demo_data_def run_defs client_defs)
  have sc: "steady calm (new_widget (str ''https://api.example'') None None) demo_run_fresh"
    by (simp add: demo_run_fresh_def calm_def stream_signal_def signal_of_def)
  note T = busy_submit_rejected [where w = demo_streaming and now = 2100 and es = demo_run_live
        and u = "typeText (str ''hi'') demo_widget" and v = demo_fetching
        and fs = demo_run_fallback and api = "str ''https://api.example''" and sg = None
        and wm = None and gs = demo_run_fresh]
  note U = busy_submit_rejected [where u = "typeText (str ''hi'') demo_widget" and now = 1500]
  show ?thesis using a sa u b sb sc T U by blast
qed

end
